theory Spec2Isabelle
  imports Main
begin

section \<open>The Mercedes-Benz push channel: data model\<close>

text \<open>
  The development embeds \<^verbatim>\<open>src/lib/websocket.js\<close> (class \<^verbatim>\<open>MercedesWebSocket\<close>).
  The object's fields become a record, every method a function from state to state, and
  the event loop a list of events that the environment (the transport, the timers of the
  runtime and the callers of the public methods) feeds to the object one at a time.

  What the runtime owns is made explicit in the same record: the armed timers
  (\<^verbatim>\<open>setTimeout\<close>/\<^verbatim>\<open>clearTimeout\<close>), the sockets created by \<^verbatim>\<open>new WebSocket\<close> with their
  \<^verbatim>\<open>readyState\<close>, and the outputs (frames sent, pings, callbacks invoked).
  Logging is left out. The two write-only timestamps (\<^verbatim>\<open>sentAt\<close>, \<^verbatim>\<open>blockedSinceTime\<close>),
  the unused \<^verbatim>\<open>messageQueue\<close> and the constant \<^verbatim>\<open>sessionId\<close> are never read by the class
  and are left out as well.
\<close>

type_synonym handle = nat
type_synonym socket_id = nat
type_synonym bytes = "nat list"
type_synonym vehicle_data = "(string \<times> string) list"

datatype ready_state = CONNECTING | OPEN | CLOSING | CLOSED

record socket =
  readyState :: ready_state
  connectSettled :: bool

datatype timer_callback =
    ConnectionWatchdogCallback
  | PingWatchdogCallback
  | ReconnectCallback
  | CommandTimeoutCallback string

text \<open>
  An entry of \<^verbatim>\<open>pendingCommands\<close>. The callbacks \<^verbatim>\<open>resolve\<close> and \<^verbatim>\<open>reject\<close> of a
  command are named by the request identifier they were registered under: invoking
  them appends \<open>Resolved\<close> or \<open>Rejected\<close> with that identifier to \<open>settlements\<close>.
\<close>

record pending_command =
  timeout :: handle

datatype settlement =
    Resolved string string
  | Rejected string string

datatype frame =
    HexFrame string
  | AcknowledgeVepUpdatesByVin int
  | AcknowledgeAppTwinCommandStatusUpdateByVin int
  | AcknowledgeServiceStatusUpdate int
  | AcknowledgeUserDataUpdate int
  | CommandFrame bytes

subsection \<open>Decoded push messages\<close>

text \<open>
  The shape of what \<^verbatim>\<open>parsePushMessage\<close> returns. The protobuf schema file is not part
  of the sources; the fields are the ones \<^verbatim>\<open>websocket.js\<close> reads. A field that may be
  \<^verbatim>\<open>undefined\<close> is an option, an object iterated with \<^verbatim>\<open>Object.entries\<close> is an
  association list in iteration order, a number tested for truthiness is compared with 0,
  a string tested for truthiness is compared with the empty string.
\<close>

record command_error =
  code :: string
  message :: string

record command_status =
  requestId :: string
  state :: int
  errors :: "command_error option"

record pid_updates =
  updatesByPid :: "command_status list option"

record sequenced =
  sequenceNumber :: int

record status_updates = sequenced +
  updatesByVin :: "(string \<times> pid_updates) list option"

record vep_update =
  fullUpdate :: bool
  attributes :: "(string \<times> string) list"

record vep_updates = sequenced +
  updates :: "(string \<times> vep_update) list option"

record push_message =
  msg :: "string option"
  vepUpdates :: "vep_updates option"
  debugMessage :: "string option"
  apptwinCommandStatusUpdatesByVin :: "status_updates option"
  service_status_updates :: "sequenced option"
  user_data_update :: "sequenced option"

text \<open>
  \<^verbatim>\<open>this.protoParser\<close>, the external codec: \<open>Inl e\<close> is a thrown error, \<open>Inr None\<close> a
  \<^verbatim>\<open>null\<close> result.
\<close>

record proto_parser =
  parsePushMessage :: "bytes \<Rightarrow> string + push_message option"
  extractVehicleData :: "vep_update \<Rightarrow> string + vehicle_data"

subsection \<open>The object\<close>

record ws_state =
  ws :: "socket_id option"
  isConnecting :: bool
  isStopping :: bool
  connectionState :: string
  messageHandler :: "nat option"
  pendingCommands :: "string \<rightharpoonup> pending_command"
  reconnectAttempts :: nat
  reconnectTimer :: "handle option"
  connectionWatchdog :: "handle option"
  pingWatchdog :: "handle option"
  accountBlocked :: bool
  timers :: "handle \<rightharpoonup> (nat \<times> timer_callback)"
  nextHandle :: handle
  sockets :: "socket_id \<rightharpoonup> socket"
  nextSocket :: socket_id
  connectsAwaiting :: nat
  sent :: "(socket_id \<times> frame) list"
  pings :: "socket_id list"
  settlements :: "settlement list"
  delivered :: "(nat \<times> string \<times> vehicle_data \<times> bool) list"

definition maxReconnectDelay :: nat where
  "maxReconnectDelay = 120000"

definition INITIAL_WATCHDOG_TIMEOUT :: nat where
  "INITIAL_WATCHDOG_TIMEOUT = 30000"

definition PING_INTERVAL :: nat where
  "PING_INTERVAL = 32000"

definition constructor :: ws_state where
  "constructor = \<lparr> ws = None, isConnecting = False, isStopping = False,
     connectionState = ''disconnected'', messageHandler = None,
     pendingCommands = Map.empty, reconnectAttempts = 0, reconnectTimer = None,
     connectionWatchdog = None, pingWatchdog = None, accountBlocked = False,
     timers = Map.empty, nextHandle = 0, sockets = Map.empty, nextSocket = 0,
     connectsAwaiting = 0, sent = [], pings = [], settlements = [], delivered = [] \<rparr>"

section \<open>The runtime: timers and sockets\<close>

definition setTimeout :: "timer_callback \<Rightarrow> nat \<Rightarrow> ws_state \<Rightarrow> ws_state" where
  "setTimeout cb delay s =
     s\<lparr> timers := (timers s)(nextHandle s \<mapsto> (delay, cb)), nextHandle := nextHandle s + 1 \<rparr>"

definition clearTimeout :: "handle \<Rightarrow> ws_state \<Rightarrow> ws_state" where
  "clearTimeout h s = s\<lparr> timers := (timers s)(h := None) \<rparr>"

definition socketState :: "ws_state \<Rightarrow> socket_id \<Rightarrow> ready_state option" where
  "socketState s i = map_option readyState (sockets s i)"

definition setReadyState :: "socket_id \<Rightarrow> ready_state \<Rightarrow> ws_state \<Rightarrow> ws_state" where
  "setReadyState i r s =
     (case sockets s i of
        None \<Rightarrow> s
      | Some k \<Rightarrow> s\<lparr> sockets := (sockets s)(i \<mapsto> k\<lparr> readyState := r \<rparr>) \<rparr>)"

text \<open>\<^verbatim>\<open>this.ws && this.ws.readyState === WebSocket.OPEN\<close>\<close>

definition isConnected :: "ws_state \<Rightarrow> bool" where
  "isConnected s =
     (case ws s of None \<Rightarrow> False | Some i \<Rightarrow> socketState s i = Some OPEN)"

definition getConnectionState :: "ws_state \<Rightarrow> string" where
  "getConnectionState s = connectionState s"

section \<open>Liveness watchdogs\<close>

definition stopConnectionWatchdog :: "ws_state \<Rightarrow> ws_state" where
  "stopConnectionWatchdog s =
     (case connectionWatchdog s of
        None \<Rightarrow> s
      | Some h \<Rightarrow> (clearTimeout h s)\<lparr> connectionWatchdog := None \<rparr>)"

definition startConnectionWatchdog :: "ws_state \<Rightarrow> ws_state" where
  "startConnectionWatchdog s =
     (let s1 = stopConnectionWatchdog s in
      (setTimeout ConnectionWatchdogCallback INITIAL_WATCHDOG_TIMEOUT s1)
        \<lparr> connectionWatchdog := Some (nextHandle s1) \<rparr>)"

definition resetConnectionWatchdog :: "ws_state \<Rightarrow> ws_state" where
  "resetConnectionWatchdog s = startConnectionWatchdog s"

definition stopPingWatchdog :: "ws_state \<Rightarrow> ws_state" where
  "stopPingWatchdog s =
     (case pingWatchdog s of
        None \<Rightarrow> s
      | Some h \<Rightarrow> (clearTimeout h s)\<lparr> pingWatchdog := None \<rparr>)"

definition startPingWatchdog :: "ws_state \<Rightarrow> ws_state" where
  "startPingWatchdog s =
     (let s1 = stopPingWatchdog s in
      (setTimeout PingWatchdogCallback PING_INTERVAL s1)
        \<lparr> pingWatchdog := Some (nextHandle s1) \<rparr>)"

definition resetPingWatchdog :: "ws_state \<Rightarrow> ws_state" where
  "resetPingWatchdog s = startPingWatchdog s"

definition stopWatchdogs :: "ws_state \<Rightarrow> ws_state" where
  "stopWatchdogs s = stopPingWatchdog (stopConnectionWatchdog s)"

section \<open>Sending\<close>

text \<open>
  \<^verbatim>\<open>_sendMessage\<close> returns without sending when no socket is open; its own
  \<^verbatim>\<open>try\<close>/\<^verbatim>\<open>catch\<close> keeps it from throwing.
\<close>

definition sendMessage :: "frame \<Rightarrow> ws_state \<Rightarrow> ws_state" where
  "sendMessage f s =
     (if \<not> isConnected s then s
      else (case ws s of None \<Rightarrow> s | Some i \<Rightarrow> s\<lparr> sent := sent s @ [(i, f)] \<rparr>))"

definition sendPing :: "ws_state \<Rightarrow> ws_state" where
  "sendPing s =
     (if isConnected s
      then (case ws s of
              None \<Rightarrow> s
            | Some i \<Rightarrow> resetPingWatchdog (s\<lparr> pings := pings s @ [i] \<rparr>))
      else s)"

section \<open>Reconnect policy\<close>

text \<open>
  Lines 439 to 447 of \<^verbatim>\<open>_scheduleReconnect\<close>: the delay for attempt number \<open>n\<close> (the
  counter after its increment). The source computes in double precision, which is
  exact below \<open>2 ^ 53\<close>; beyond that the minimum is \<open>maxReconnectDelay\<close> in both.
\<close>

definition reconnectDelay :: "nat \<Rightarrow> bool \<Rightarrow> nat" where
  "reconnectDelay n blocked =
     (let delay = min (10000 * n ^ 2) maxReconnectDelay in
      if blocked then max delay 60000 else delay)"

definition scheduleReconnect :: "ws_state \<Rightarrow> ws_state" where
  "scheduleReconnect s =
     (if isStopping s \<or> reconnectTimer s \<noteq> None then s
      else
        (let s1 = s\<lparr> reconnectAttempts := reconnectAttempts s + 1 \<rparr>;
             delay = reconnectDelay (reconnectAttempts s1) (accountBlocked s1) in
         (setTimeout ReconnectCallback delay s1)\<lparr> reconnectTimer := Some (nextHandle s1) \<rparr>))"

section \<open>Connecting and disconnecting\<close>

text \<open>
  \<^verbatim>\<open>connect\<close> up to its first suspension: \<^verbatim>\<open>_connectInternal\<close> awaits the connection
  headers, and the event loop runs other handlers before it resumes. The suspended calls
  are counted in \<open>connectsAwaiting\<close>.
\<close>

definition connect :: "nat option \<Rightarrow> ws_state \<Rightarrow> ws_state" where
  "connect onDataReceived s =
     (if isConnecting s \<or> isStopping s then s
      else s\<lparr> messageHandler := onDataReceived, isConnecting := True, isStopping := False,
             connectsAwaiting := connectsAwaiting s + 1 \<rparr>)"

text \<open>
  \<^verbatim>\<open>_connectInternal\<close> resumes with the headers and creates the socket, on which the
  five handlers below are registered.
\<close>

definition connectInternal_socket :: "ws_state \<Rightarrow> ws_state" where
  "connectInternal_socket s =
     (if connectsAwaiting s = 0 then s
      else s\<lparr> connectsAwaiting := connectsAwaiting s - 1,
             sockets := (sockets s)(nextSocket s \<mapsto>
                \<lparr> readyState = CONNECTING, connectSettled = False \<rparr>),
             ws := Some (nextSocket s),
             nextSocket := nextSocket s + 1 \<rparr>)"

text \<open>The \<^verbatim>\<open>catch\<close> block of \<^verbatim>\<open>connect\<close>.\<close>

definition connect_catch :: "ws_state \<Rightarrow> ws_state" where
  "connect_catch s = scheduleReconnect (s\<lparr> isConnecting := False \<rparr>)"

text \<open>
  \<^verbatim>\<open>_connectInternal\<close> fails before a socket exists: the token provider rejects, or
  the socket constructor throws.
\<close>

definition connectInternal_throws :: "ws_state \<Rightarrow> ws_state" where
  "connectInternal_throws s =
     (if connectsAwaiting s = 0 then s
      else connect_catch (s\<lparr> connectsAwaiting := connectsAwaiting s - 1 \<rparr>))"

definition disconnect :: "ws_state \<Rightarrow> ws_state" where
  "disconnect s =
     (let s1 = s\<lparr> isStopping := True \<rparr>;
          s2 = (case reconnectTimer s1 of
                  None \<Rightarrow> s1
                | Some h \<Rightarrow> (clearTimeout h s1)\<lparr> reconnectTimer := None \<rparr>);
          s3 = stopWatchdogs s2;
          s4 = (case ws s3 of
                  None \<Rightarrow> s3
                | Some i \<Rightarrow>
                    (if socketState s3 i = Some OPEN \<or> socketState s3 i = Some CONNECTING
                     then setReadyState i CLOSING s3 else s3)\<lparr> ws := None \<rparr>)
      in s4\<lparr> connectionState := ''disconnected'' \<rparr>)"

definition handleConnectionTimeout :: "ws_state \<Rightarrow> ws_state" where
  "handleConnectionTimeout s = scheduleReconnect (disconnect s)"

section \<open>Command tracker\<close>

definition STATE_MAP :: "int \<rightharpoonup> string" where
  "STATE_MAP = map_of
     [(0, ''UNKNOWN''), (1, ''INITIATED''), (2, ''ENQUEUED''), (3, ''PROCESSING''),
      (4, ''WAITING''), (5, ''FINISHED''), (6, ''FAILED'')]"

text \<open>\<^verbatim>\<open>STATE_MAP[stateCode] || 'UNKNOWN'\<close>\<close>

definition mapState :: "int \<Rightarrow> string" where
  "mapState stateCode = (case STATE_MAP stateCode of Some n \<Rightarrow> n | None \<Rightarrow> ''UNKNOWN'')"

text \<open>The text of the error built for a \<^verbatim>\<open>FAILED\<close> status (lines 510 to 519).\<close>

definition errorMessage :: "command_error option \<Rightarrow> string" where
  "errorMessage e =
     (case e of
        None \<Rightarrow> ''Command failed''
      | Some err \<Rightarrow>
          ''Command failed''
          @ (if message err \<noteq> [] then '': '' @ message err else [])
          @ (if code err \<noteq> [] then '' ('' @ code err @ '')'' else []))"

text \<open>The body of the inner loop of \<^verbatim>\<open>_handleCommandStatusUpdates\<close>, for one status entry.\<close>

definition handleStatus :: "command_status \<Rightarrow> ws_state \<Rightarrow> ws_state" where
  "handleStatus status s =
     (let rid = requestId status; name = mapState (state status) in
      case pendingCommands s rid of
        None \<Rightarrow> s
      | Some pending \<Rightarrow>
          (let s1 = clearTimeout (timeout pending) s in
           if name = ''FINISHED''
           then s1\<lparr> settlements := settlements s1 @ [Resolved rid name],
                    pendingCommands := (pendingCommands s1)(rid := None) \<rparr>
           else if name = ''FAILED''
           then s1\<lparr> settlements := settlements s1 @ [Rejected rid (errorMessage (errors status))],
                    pendingCommands := (pendingCommands s1)(rid := None) \<rparr>
           else s1))"

definition handlePidUpdates :: "pid_updates \<Rightarrow> ws_state \<Rightarrow> ws_state" where
  "handlePidUpdates p s =
     (case updatesByPid p of None \<Rightarrow> s | Some statuses \<Rightarrow> fold handleStatus statuses s)"

definition handleCommandStatusUpdates :: "status_updates option \<Rightarrow> ws_state \<Rightarrow> ws_state" where
  "handleCommandStatusUpdates statusUpdates s =
     (case statusUpdates of
        None \<Rightarrow> s
      | Some u \<Rightarrow>
          (case updatesByVin u of
             None \<Rightarrow> s
           | Some byVin \<Rightarrow> fold (\<lambda>(vin, p). handlePidUpdates p) byVin s))"

text \<open>
  \<^verbatim>\<open>sendCommand\<close> in two steps, since it waits for the connection in between. The
  first step asks for a connection when none is open.
\<close>

definition sendCommand_wait :: "ws_state \<Rightarrow> ws_state" where
  "sendCommand_wait s =
     (if \<not> isConnected s \<and> \<not> isConnecting s then connect (messageHandler s) s else s)"

text \<open>
  The second step, from line 555: it throws when no socket is open (\<open>Inl\<close>), and
  otherwise arms the timeout, stores the entry and sends the frame. The \<^verbatim>\<open>catch\<close>
  attached to \<^verbatim>\<open>_sendMessage\<close> never runs, since \<^verbatim>\<open>_sendMessage\<close> catches its own
  errors and its promise is never rejected.
\<close>

definition sendCommand_send :: "bytes \<Rightarrow> string \<Rightarrow> nat \<Rightarrow> ws_state \<Rightarrow> string + ws_state" where
  "sendCommand_send payload rid t s =
     (if \<not> isConnected s then Inl ''WebSocket connection not available for command''
      else
        (let s1 = setTimeout (CommandTimeoutCallback rid) t s;
             s2 = s1\<lparr> pendingCommands := (pendingCommands s1)(rid \<mapsto> \<lparr> timeout = nextHandle s \<rparr>) \<rparr>
         in Inr (sendMessage (CommandFrame payload) s2)))"

text \<open>The timeout callback of a command (lines 562 to 565).\<close>

definition commandTimeout :: "string \<Rightarrow> ws_state \<Rightarrow> ws_state" where
  "commandTimeout rid s =
     s\<lparr> pendingCommands := (pendingCommands s)(rid := None),
        settlements := settlements s @ [Rejected rid ''Command timeout - no response from vehicle''] \<rparr>"

section \<open>Message dispatcher\<close>

definition processVepUpdate :: "proto_parser \<Rightarrow> string \<Rightarrow> vep_update \<Rightarrow> ws_state \<Rightarrow> ws_state" where
  "processVepUpdate P vin u s =
     (case extractVehicleData P u of
        Inl e \<Rightarrow> s
      | Inr d \<Rightarrow>
          (case messageHandler s of
             None \<Rightarrow> s
           | Some h \<Rightarrow> s\<lparr> delivered := delivered s @ [(h, vin, d, fullUpdate u)] \<rparr>))"

definition ackIfSequenced :: "(int \<Rightarrow> frame) \<Rightarrow> int \<Rightarrow> frame option" where
  "ackIfSequenced mk n = (if n \<noteq> 0 then Some (mk n) else None)"

text \<open>
  The \<^verbatim>\<open>switch\<close> of \<^verbatim>\<open>_processMessage\<close>: the acknowledgment to send, if any, and the new
  state; \<open>Inl\<close> is a thrown error together with the state reached when it was thrown.
\<close>

definition dispatch ::
  "proto_parser \<Rightarrow> push_message \<Rightarrow> ws_state \<Rightarrow> (string \<times> ws_state) + (frame option \<times> ws_state)" where
  "dispatch P m s =
     (if msg m = Some ''vepUpdates'' then
        (case vepUpdates m of
           None \<Rightarrow> Inr (None, s)
         | Some v \<Rightarrow>
             (case updates v of
                None \<Rightarrow> Inr (None, s)
              | Some us \<Rightarrow>
                  Inr (ackIfSequenced AcknowledgeVepUpdatesByVin (sequenceNumber v),
                       fold (\<lambda>(vin, u). processVepUpdate P vin u) us s)))
      else if msg m = Some ''assigned_vehicles'' then Inr (Some (HexFrame ''ba0100''), s)
      else if msg m = Some ''apptwin_pending_command_request'' then Inr (Some (HexFrame ''aa0100''), s)
      else if msg m = Some ''apptwin_command_status_updates_by_vin'' then
        (let s1 = handleCommandStatusUpdates (apptwinCommandStatusUpdatesByVin m) s in
         case apptwinCommandStatusUpdatesByVin m of
           None \<Rightarrow> Inl (''TypeError'', s1)
         | Some u \<Rightarrow>
             Inr (ackIfSequenced AcknowledgeAppTwinCommandStatusUpdateByVin (sequenceNumber u), s1))
      else if msg m = Some ''service_status_updates'' then
        (case service_status_updates m of
           None \<Rightarrow> Inr (None, s)
         | Some u \<Rightarrow> Inr (ackIfSequenced AcknowledgeServiceStatusUpdate (sequenceNumber u), s))
      else if msg m = Some ''user_data_update'' then
        (case user_data_update m of
           None \<Rightarrow> Inr (None, s)
         | Some u \<Rightarrow> Inr (ackIfSequenced AcknowledgeUserDataUpdate (sequenceNumber u), s))
      else if msg m = Some ''debugMessage'' then
        (case debugMessage m of None \<Rightarrow> Inl (''TypeError'', s) | Some d \<Rightarrow> Inr (None, s))
      else Inr (None, s))"

text \<open>The body of the \<^verbatim>\<open>try\<close> block of \<^verbatim>\<open>_processMessage\<close>.\<close>

definition processMessage_try ::
  "proto_parser \<Rightarrow> bytes \<Rightarrow> ws_state \<Rightarrow> (string \<times> ws_state) + ws_state" where
  "processMessage_try P data s =
     (case parsePushMessage P data of
        Inl e \<Rightarrow> Inl (e, s)
      | Inr None \<Rightarrow> Inr s
      | Inr (Some m) \<Rightarrow>
          (case dispatch P m s of
             Inl thrown \<Rightarrow> Inl thrown
           | Inr (ackMessage, s1) \<Rightarrow>
               Inr (case ackMessage of None \<Rightarrow> s1 | Some f \<Rightarrow> sendMessage f s1)))"

text \<open>\<^verbatim>\<open>_processMessage\<close>: the \<^verbatim>\<open>catch\<close> block logs the error and returns.\<close>

definition processMessage ::
  "proto_parser \<Rightarrow> bytes \<Rightarrow> ws_state \<Rightarrow> (string \<times> ws_state) + ws_state" where
  "processMessage P data s =
     (case processMessage_try P data s of Inl (e, s1) \<Rightarrow> Inr s1 | Inr s1 \<Rightarrow> Inr s1)"

section \<open>Socket event handlers\<close>

fun js_includes :: "string \<Rightarrow> string \<Rightarrow> bool" where
  "js_includes [] sub = (sub = [])"
| "js_includes (c # cs) sub = (take (length sub) (c # cs) = sub \<or> js_includes cs sub)"

definition settleConnect :: "socket_id \<Rightarrow> ws_state \<Rightarrow> ws_state" where
  "settleConnect i s =
     (case sockets s i of
        None \<Rightarrow> s
      | Some k \<Rightarrow> s\<lparr> sockets := (sockets s)(i \<mapsto> k\<lparr> connectSettled := True \<rparr>) \<rparr>)"

definition on_open :: "socket_id \<Rightarrow> ws_state \<Rightarrow> ws_state" where
  "on_open i s =
     (let s1 = s\<lparr> connectionState := ''connected'', isConnecting := False,
                  reconnectAttempts := 0, accountBlocked := False \<rparr>
      in settleConnect i (startPingWatchdog (startConnectionWatchdog s1)))"

definition on_message :: "proto_parser \<Rightarrow> bytes \<Rightarrow> ws_state \<Rightarrow> ws_state" where
  "on_message P data s =
     (case processMessage P data (resetPingWatchdog (resetConnectionWatchdog s)) of
        Inl (e, s1) \<Rightarrow> s1
      | Inr s1 \<Rightarrow> s1)"

text \<open>
  The \<^verbatim>\<open>error\<close> listener rejects the promise of the \<^verbatim>\<open>_connectInternal\<close> call that
  created the socket; when that promise is still unsettled, \<^verbatim>\<open>connect\<close> catches.
\<close>

definition on_error :: "socket_id \<Rightarrow> string \<Rightarrow> ws_state \<Rightarrow> ws_state" where
  "on_error i errorText s =
     (let s1 = (if js_includes errorText ''429'' then s\<lparr> accountBlocked := True \<rparr> else s) in
      case sockets s1 i of
        None \<Rightarrow> s1
      | Some k \<Rightarrow> if connectSettled k then s1 else connect_catch (settleConnect i s1))"

definition on_close :: "ws_state \<Rightarrow> ws_state" where
  "on_close s =
     (let s1 = stopWatchdogs (s\<lparr> connectionState := ''disconnected'', isConnecting := False \<rparr>)
      in if \<not> isStopping s1 then scheduleReconnect s1 else s1)"

definition on_pong :: "ws_state \<Rightarrow> ws_state" where
  "on_pong s = resetPingWatchdog s"

section \<open>Timers firing\<close>

definition reconnectCallback :: "ws_state \<Rightarrow> ws_state" where
  "reconnectCallback s =
     (let s1 = s\<lparr> reconnectTimer := None \<rparr> in
      if \<not> isStopping s1 then connect (messageHandler s1) s1 else s1)"

definition runCallback :: "timer_callback \<Rightarrow> ws_state \<Rightarrow> ws_state" where
  "runCallback cb s =
     (case cb of
        ConnectionWatchdogCallback \<Rightarrow> handleConnectionTimeout s
      | PingWatchdogCallback \<Rightarrow> sendPing s
      | ReconnectCallback \<Rightarrow> reconnectCallback s
      | CommandTimeoutCallback rid \<Rightarrow> commandTimeout rid s)"

text \<open>An armed timer fires once: the runtime disarms it and runs its callback.\<close>

definition fire :: "handle \<Rightarrow> ws_state \<Rightarrow> ws_state" where
  "fire h s =
     (case timers s h of
        None \<Rightarrow> s
      | Some (delay, cb) \<Rightarrow> runCallback cb (clearTimeout h s))"

section \<open>The event loop\<close>

text \<open>
  One event per turn of the event loop. The transport raises \<^verbatim>\<open>open\<close> only on a socket
  that is connecting, \<^verbatim>\<open>message\<close> and \<^verbatim>\<open>pong\<close> on one that is open or closing, and
  \<^verbatim>\<open>error\<close> and \<^verbatim>\<open>close\<close> on one that is not yet closed; an event that cannot occur
  in the current state leaves it unchanged.

  A handler runs to completion within its event. The one place where the source suspends
  inside a handler, the \<^verbatim>\<open>await\<close> of the telemetry callback in the \<^verbatim>\<open>vepUpdates\<close>
  branch, is taken as atomic: the callback is external and is recorded in \<open>delivered\<close>;
  an error it throws is caught per vehicle and changes nothing.
\<close>

datatype event =
    Connect "nat option"
  | ConnectInternalSocket
  | ConnectInternalThrows
  | SocketOpen socket_id
  | SocketMessage socket_id bytes
  | SocketError socket_id string
  | SocketClose socket_id
  | SocketPong socket_id
  | TimerFires handle
  | SendCommandWait
  | SendCommandSend bytes string nat
  | Disconnect

definition step :: "proto_parser \<Rightarrow> event \<Rightarrow> ws_state \<Rightarrow> ws_state" where
  "step P e s =
     (case e of
        Connect h \<Rightarrow> connect h s
      | ConnectInternalSocket \<Rightarrow> connectInternal_socket s
      | ConnectInternalThrows \<Rightarrow> connectInternal_throws s
      | SocketOpen i \<Rightarrow>
          if socketState s i = Some CONNECTING then on_open i (setReadyState i OPEN s) else s
      | SocketMessage i data \<Rightarrow>
          if socketState s i = Some OPEN \<or> socketState s i = Some CLOSING
          then on_message P data s else s
      | SocketError i errorText \<Rightarrow>
          if socketState s i = None \<or> socketState s i = Some CLOSED then s
          else on_error i errorText (setReadyState i CLOSING s)
      | SocketClose i \<Rightarrow>
          if socketState s i = None \<or> socketState s i = Some CLOSED then s
          else on_close (setReadyState i CLOSED s)
      | SocketPong i \<Rightarrow>
          if socketState s i = Some OPEN \<or> socketState s i = Some CLOSING
          then on_pong s else s
      | TimerFires h \<Rightarrow> fire h s
      | SendCommandWait \<Rightarrow> sendCommand_wait s
      | SendCommandSend payload rid t \<Rightarrow>
          (case sendCommand_send payload rid t s of Inl e \<Rightarrow> s | Inr s1 \<Rightarrow> s1)
      | Disconnect \<Rightarrow> disconnect s)"

definition run :: "proto_parser \<Rightarrow> event list \<Rightarrow> ws_state \<Rightarrow> ws_state" where
  "run P evs s = fold (step P) evs s"

section \<open>Observations\<close>

text \<open>The delay of the reconnect timer that is currently scheduled, if one is armed.\<close>

definition scheduledReconnectDelay :: "ws_state \<Rightarrow> nat option" where
  "scheduledReconnectDelay s =
     (case reconnectTimer s of None \<Rightarrow> None | Some h \<Rightarrow> map_option fst (timers s h))"

text \<open>A codec that decodes every frame to \<^verbatim>\<open>null\<close>, for traces that carry no frames.\<close>

definition nullParser :: proto_parser where
  "nullParser = \<lparr> parsePushMessage = (\<lambda>data. Inr None), extractVehicleData = (\<lambda>u. Inr []) \<rparr>"

text \<open>The settlements recorded for one request identifier, in order.\<close>

fun settlementId :: "settlement \<Rightarrow> string" where
  "settlementId (Resolved rid name) = rid"
| "settlementId (Rejected rid txt) = rid"

definition settlementsFor :: "string \<Rightarrow> ws_state \<Rightarrow> settlement list" where
  "settlementsFor rid s = filter (\<lambda>x. settlementId x = rid) (settlements s)"

text \<open>
  The status entries of a command-status update in the order the two nested loops of
  \<^verbatim>\<open>_handleCommandStatusUpdates\<close> visit them, and whether an entry is terminal.
\<close>

definition statusEntries :: "status_updates option \<Rightarrow> command_status list" where
  "statusEntries statusUpdates =
     (case statusUpdates of
        None \<Rightarrow> []
      | Some u \<Rightarrow>
          (case updatesByVin u of
             None \<Rightarrow> []
           | Some byVin \<Rightarrow>
               concat (map (\<lambda>(vin, p). case updatesByPid p of None \<Rightarrow> [] | Some sts \<Rightarrow> sts) byVin)))"

definition terminalStatus :: "command_status \<Rightarrow> bool" where
  "terminalStatus status =
     (mapState (state status) = ''FINISHED'' \<or> mapState (state status) = ''FAILED'')"

text \<open>The callback invocation a terminal status entry leads to.\<close>

definition settleOutcome :: "command_status \<Rightarrow> settlement" where
  "settleOutcome status =
     (if mapState (state status) = ''FINISHED'' then Resolved (requestId status) ''FINISHED''
      else Rejected (requestId status) (errorMessage (errors status)))"

text \<open>The \<^verbatim>\<open>case\<close> labels of the \<^verbatim>\<open>switch\<close> in \<^verbatim>\<open>_processMessage\<close>.\<close>

definition knownMessageTypes :: "string list" where
  "knownMessageTypes =
     [''vepUpdates'', ''assigned_vehicles'', ''apptwin_pending_command_request'',
      ''apptwin_command_status_updates_by_vin'', ''service_status_updates'',
      ''user_data_update'', ''debugMessage'']"

subsection \<open>Scenarios\<close>

text \<open>
  A codec that decodes every frame to the same message, a command-status update with one
  entry, and the state of a connected object with the command \<open>abc\<close> pending.
\<close>

definition constParser :: "push_message \<Rightarrow> proto_parser" where
  "constParser m = \<lparr> parsePushMessage = (\<lambda>data. Inr (Some m)), extractVehicleData = (\<lambda>u. Inr []) \<rparr>"

definition statusFrame :: "string \<Rightarrow> int \<Rightarrow> command_error option \<Rightarrow> int \<Rightarrow> push_message" where
  "statusFrame rid stateCode e n =
     \<lparr> msg = Some ''apptwin_command_status_updates_by_vin'', vepUpdates = None,
       debugMessage = None,
       apptwinCommandStatusUpdatesByVin = Some \<lparr> sequenceNumber = n, updatesByVin = Some
         [(''VIN1'', \<lparr> updatesByPid = Some [\<lparr> requestId = rid, state = stateCode, errors = e \<rparr>] \<rparr>)] \<rparr>,
       service_status_updates = None, user_data_update = None \<rparr>"

definition abcPending :: ws_state where
  "abcPending = run nullParser
     [Connect None, ConnectInternalSocket, SocketOpen 0, SendCommandSend [] ''abc'' 30000]
     constructor"

text \<open>A codec that fails to decode, and a message of a variant the dispatcher does not know.\<close>

definition failingParser :: proto_parser where
  "failingParser = \<lparr> parsePushMessage = (\<lambda>data. Inl ''index out of range''),
     extractVehicleData = (\<lambda>u. Inr []) \<rparr>"

definition futureFrame :: push_message where
  "futureFrame = \<lparr> msg = Some ''futureVariant'', vepUpdates = None, debugMessage = None,
     apptwinCommandStatusUpdatesByVin = None, service_status_updates = None,
     user_data_update = None \<rparr>"

subsection \<open>Invariants\<close>

text \<open>
  \<open>shrinks s s'\<close>: every command timeout armed in \<open>s'\<close> was armed in \<open>s\<close>.
\<close>

definition shrinks :: "ws_state \<Rightarrow> ws_state \<Rightarrow> bool" where
  "shrinks s s' \<longleftrightarrow>
     (\<forall>h d rid. timers s' h = Some (d, CommandTimeoutCallback rid) \<longrightarrow>
        timers s h = Some (d, CommandTimeoutCallback rid))"

text \<open>
  A shut-down object: the flag is set, no \<^verbatim>\<open>_connectInternal\<close> call is suspended, no socket
  is attached or still connecting, and the accessor reports \<open>disconnected\<close>.
\<close>

definition stopped :: "ws_state \<Rightarrow> bool" where
  "stopped s \<longleftrightarrow>
     isStopping s \<and> connectsAwaiting s = 0 \<and> ws s = None
     \<and> connectionState s = ''disconnected''
     \<and> (\<forall>i. socketState s i \<noteq> Some CONNECTING)"

subsection \<open>More scenarios\<close>

text \<open>
  The command \<open>abc\<close> after an \<open>INITIATED\<close> status frame for it has been dispatched; a
  connected object; and a connected object whose connection watchdog (timer 0) has expired.
\<close>

definition abcInitiated :: ws_state where
  "abcInitiated = run (constParser (statusFrame ''abc'' 1 None 0))
     [Connect None, ConnectInternalSocket, SocketOpen 0, SendCommandSend [] ''abc'' 30000,
      SocketMessage 0 []]
     constructor"

definition connectedState :: ws_state where
  "connectedState = run nullParser [Connect None, ConnectInternalSocket, SocketOpen 0] constructor"

definition watchdogExpired :: ws_state where
  "watchdogExpired = run nullParser [TimerFires 0] connectedState"

subsection \<open>The life of a request identifier\<close>

text \<open>
  The handles of the armed timers that are the command timeout of a request identifier,
  and whether an event hands the identifier to \<^verbatim>\<open>sendCommand\<close>.
\<close>

definition armedFor :: "string \<Rightarrow> ws_state \<Rightarrow> handle set" where
  "armedFor rid s = {h. \<exists>d. timers s h = Some (d, CommandTimeoutCallback rid)}"

fun registers :: "string \<Rightarrow> event \<Rightarrow> bool" where
  "registers R (SendCommandSend payload rid t) = (rid = R)"
| "registers R e = False"

text \<open>
  A trace in which \<open>abc\<close> is sent, two status frames for it arrive, and timer 2 (its
  timeout) is asked to fire.
\<close>

definition abcTrace :: "event list" where
  "abcTrace =
     [Connect None, ConnectInternalSocket, SocketOpen 0, SendCommandSend [] ''abc'' 30000,
      SocketMessage 0 [], SocketMessage 0 [], TimerFires 2]"

text \<open>
  \<open>tcalm\<close>: a step that leaves the tracker alone. \<open>quiet R\<close>: a step that leaves the
  request identifier \<open>R\<close> alone. The three phases of \<open>R\<close>: never sent (\<open>fresh\<close>), sent
  and not settled (\<open>live\<close>: at most one timeout handle is armed for it, the one stored in
  its entry), and settled once (\<open>settled\<close>).
\<close>

definition tcalm :: "ws_state \<Rightarrow> ws_state \<Rightarrow> bool" where
  "tcalm s s' \<longleftrightarrow>
     pendingCommands s' = pendingCommands s \<and> settlements s' = settlements s \<and> shrinks s s'"

definition quiet :: "string \<Rightarrow> ws_state \<Rightarrow> ws_state \<Rightarrow> bool" where
  "quiet R s s' \<longleftrightarrow>
     settlementsFor R s' = settlementsFor R s \<and> pendingCommands s' R = pendingCommands s R
     \<and> armedFor R s' \<subseteq> armedFor R s"

definition fresh :: "string \<Rightarrow> ws_state \<Rightarrow> bool" where
  "fresh R s \<longleftrightarrow> settlementsFor R s = [] \<and> pendingCommands s R = None \<and> armedFor R s = {}"

definition live :: "string \<Rightarrow> ws_state \<Rightarrow> bool" where
  "live R s \<longleftrightarrow>
     settlementsFor R s = []
     \<and> (\<exists>h0. armedFor R s \<subseteq> {h0} \<and> (\<forall>e. pendingCommands s R = Some e \<longrightarrow> timeout e = h0))"

definition settled :: "string \<Rightarrow> ws_state \<Rightarrow> bool" where
  "settled R s \<longleftrightarrow>
     length (settlementsFor R s) = 1 \<and> pendingCommands s R = None \<and> armedFor R s = {}"

text \<open>
  A leaked command: still in the tracker, not settled, and with no timeout armed. An
  event is \<open>silent\<close> for \<open>R\<close> when it is neither an inbound frame nor a \<^verbatim>\<open>sendCommand\<close> of
  \<open>R\<close>.
\<close>

definition leaked :: "string \<Rightarrow> ws_state \<Rightarrow> bool" where
  "leaked R s \<longleftrightarrow>
     settlementsFor R s = [] \<and> pendingCommands s R \<noteq> None \<and> armedFor R s = {}"

fun silent :: "string \<Rightarrow> event \<Rightarrow> bool" where
  "silent R (SocketMessage i data) = False"
| "silent R (SendCommandSend payload rid t) = (rid \<noteq> R)"
| "silent R e = True"

section \<open>Unfolding the model\<close>

lemmas ws_defs =
  maxReconnectDelay_def INITIAL_WATCHDOG_TIMEOUT_def PING_INTERVAL_def constructor_def
  setTimeout_def clearTimeout_def socketState_def setReadyState_def isConnected_def
  getConnectionState_def stopConnectionWatchdog_def startConnectionWatchdog_def
  resetConnectionWatchdog_def stopPingWatchdog_def startPingWatchdog_def
  resetPingWatchdog_def stopWatchdogs_def sendMessage_def sendPing_def reconnectDelay_def
  scheduleReconnect_def connect_def connectInternal_socket_def connect_catch_def
  connectInternal_throws_def disconnect_def handleConnectionTimeout_def STATE_MAP_def
  mapState_def errorMessage_def handleStatus_def handlePidUpdates_def
  handleCommandStatusUpdates_def sendCommand_wait_def sendCommand_send_def
  commandTimeout_def processVepUpdate_def ackIfSequenced_def dispatch_def
  processMessage_try_def processMessage_def settleConnect_def on_open_def on_message_def
  on_error_def on_close_def on_pong_def reconnectCallback_def runCallback_def fire_def
  step_def run_def scheduledReconnectDelay_def nullParser_def

section \<open>Reconnect policy: the backoff delay\<close>

text \<open>
  Claim C5. With the rate-limited flag unset, the delay computed for attempt \<open>n \<ge> 1\<close> is
  exactly \<open>min (10000 * n\<^sup>2) 120000\<close> milliseconds, and that is the delay of the timer
  \<^verbatim>\<open>_scheduleReconnect\<close> arms when it moves the attempt counter to \<open>n\<close>. Three losses
  of the connection in a row (the first after a successful open, the next two failed
  reconnect attempts, each ending in a close event, with or without an error event
  before it) schedule the delays 10000, 40000 and 90000.
\<close>

theorem reconnect_delay_quadratic:
  assumes "1 \<le> n" and "\<not> isStopping s" and "reconnectTimer s = None"
    and "\<not> accountBlocked s" and "reconnectAttempts s + 1 = n"
  shows "reconnectDelay n False = min (10000 * n ^ 2) 120000
    \<and> reconnectAttempts (scheduleReconnect s) = n
    \<and> scheduledReconnectDelay (scheduleReconnect s) = Some (min (10000 * n ^ 2) 120000)
    \<and> map (\<lambda>evs. scheduledReconnectDelay (run P evs constructor))
        [[Connect None, ConnectInternalSocket, SocketOpen 0, SocketClose 0],
         [Connect None, ConnectInternalSocket, SocketOpen 0, SocketClose 0,
          TimerFires 2, ConnectInternalSocket, SocketError 1 ''ECONNREFUSED'', SocketClose 1],
         [Connect None, ConnectInternalSocket, SocketOpen 0, SocketClose 0,
          TimerFires 2, ConnectInternalSocket, SocketError 1 ''ECONNREFUSED'', SocketClose 1,
          TimerFires 3, ConnectInternalSocket, SocketError 2 ''ECONNREFUSED'', SocketClose 2]]
      = [Some 10000, Some 40000, Some 90000]
    \<and> map (\<lambda>evs. scheduledReconnectDelay (run P evs constructor))
        [[Connect None, ConnectInternalSocket, SocketOpen 0, SocketClose 0],
         [Connect None, ConnectInternalSocket, SocketOpen 0, SocketClose 0,
          TimerFires 2, ConnectInternalSocket, SocketClose 1],
         [Connect None, ConnectInternalSocket, SocketOpen 0, SocketClose 0,
          TimerFires 2, ConnectInternalSocket, SocketClose 1,
          TimerFires 3, ConnectInternalSocket, SocketClose 2]]
      = [Some 10000, Some 40000, Some 90000]"
proof -
  have formula: "reconnectDelay n False = min (10000 * n ^ 2) 120000"
    by (simp add: reconnectDelay_def maxReconnectDelay_def)
  have counter: "reconnectAttempts (scheduleReconnect s) = n"
    using assms by (simp add: scheduleReconnect_def setTimeout_def Let_def)
  have armed: "scheduledReconnectDelay (scheduleReconnect s) = Some (reconnectDelay n False)"
    using assms
    by (simp add: scheduleReconnect_def setTimeout_def scheduledReconnectDelay_def Let_def)
  have closes: "map (\<lambda>evs. scheduledReconnectDelay (run P evs constructor))
        [[Connect None, ConnectInternalSocket, SocketOpen 0, SocketClose 0],
         [Connect None, ConnectInternalSocket, SocketOpen 0, SocketClose 0,
          TimerFires 2, ConnectInternalSocket, SocketError 1 ''ECONNREFUSED'', SocketClose 1],
         [Connect None, ConnectInternalSocket, SocketOpen 0, SocketClose 0,
          TimerFires 2, ConnectInternalSocket, SocketError 1 ''ECONNREFUSED'', SocketClose 1,
          TimerFires 3, ConnectInternalSocket, SocketError 2 ''ECONNREFUSED'', SocketClose 2]]
      = [Some 10000, Some 40000, Some 90000]"
    by (simp add: ws_defs Let_def power2_eq_square)
  have closes_only: "map (\<lambda>evs. scheduledReconnectDelay (run P evs constructor))
        [[Connect None, ConnectInternalSocket, SocketOpen 0, SocketClose 0],
         [Connect None, ConnectInternalSocket, SocketOpen 0, SocketClose 0,
          TimerFires 2, ConnectInternalSocket, SocketClose 1],
         [Connect None, ConnectInternalSocket, SocketOpen 0, SocketClose 0,
          TimerFires 2, ConnectInternalSocket, SocketClose 1,
          TimerFires 3, ConnectInternalSocket, SocketClose 2]]
      = [Some 10000, Some 40000, Some 90000]"
    by (simp add: ws_defs Let_def power2_eq_square)
  from formula counter armed closes closes_only show ?thesis by simp
qed

theorem reconnect_delay_quadratic_witness:
  "(1::nat) \<le> 3
   \<and> reconnectDelay 3 False = 90000
   \<and> reconnectAttempts (scheduleReconnect (constructor\<lparr> reconnectAttempts := 2 \<rparr>)) = 3
   \<and> scheduledReconnectDelay (scheduleReconnect (constructor\<lparr> reconnectAttempts := 2 \<rparr>))
       = Some 90000"
  using reconnect_delay_quadratic [of 3 "constructor\<lparr> reconnectAttempts := 2 \<rparr>" nullParser]
  by (simp add: constructor_def)

text \<open>
  Claim C6. With the rate-limited flag set, the delay computed for any attempt \<open>n \<ge> 1\<close>
  is at least 60000 milliseconds, and so is the delay of the timer that
  \<^verbatim>\<open>_scheduleReconnect\<close> arms.
\<close>

theorem reconnect_delay_rate_limited_floor:
  assumes "1 \<le> n" and "\<not> isStopping s" and "reconnectTimer s = None"
    and "accountBlocked s" and "reconnectAttempts s + 1 = n"
  shows "60000 \<le> reconnectDelay n True
    \<and> scheduledReconnectDelay (scheduleReconnect s) = Some (reconnectDelay n True)"
proof -
  have floor: "60000 \<le> reconnectDelay n True"
    by (simp add: reconnectDelay_def Let_def)
  have armed: "scheduledReconnectDelay (scheduleReconnect s) = Some (reconnectDelay n True)"
    using assms
    by (simp add: scheduleReconnect_def setTimeout_def scheduledReconnectDelay_def Let_def)
  from floor armed show ?thesis by simp
qed

theorem reconnect_delay_rate_limited_floor_witness:
  "(1::nat) \<le> 1
   \<and> reconnectDelay 1 True = 60000
   \<and> scheduledReconnectDelay (scheduleReconnect (constructor\<lparr> accountBlocked := True \<rparr>))
       = Some 60000"
  using reconnect_delay_rate_limited_floor [of 1 "constructor\<lparr> accountBlocked := True \<rparr>"]
  by (simp add: constructor_def reconnectDelay_def maxReconnectDelay_def)

section \<open>Command tracker: settling by status update\<close>

lemma fold_byVin:
  "fold (\<lambda>(vin, p). handlePidUpdates p) byVin s =
   fold handleStatus (concat (map (\<lambda>(vin, p). case updatesByPid p of None \<Rightarrow> [] | Some sts \<Rightarrow> sts) byVin)) s"
  by (induction byVin arbitrary: s) (auto simp: handlePidUpdates_def split: option.splits)

lemma handleCommandStatusUpdates_fold:
  "handleCommandStatusUpdates su s = fold handleStatus (statusEntries su) s"
  by (simp add: handleCommandStatusUpdates_def statusEntries_def fold_byVin split: option.splits)

lemma handleStatus_absent:
  "pendingCommands s (requestId status) = None \<Longrightarrow> handleStatus status s = s"
  by (simp add: handleStatus_def)

lemma fold_handleStatus_absent:
  "\<forall>status \<in> set xs. pendingCommands s (requestId status) = None \<Longrightarrow> fold handleStatus xs s = s"
  by (induction xs arbitrary: s) (simp_all add: handleStatus_absent)

lemma handleStatus_other:
  "requestId status \<noteq> R \<Longrightarrow>
     pendingCommands (handleStatus status s) R = pendingCommands s R
   \<and> settlementsFor R (handleStatus status s) = settlementsFor R s"
  by (simp add: handleStatus_def settlementsFor_def clearTimeout_def Let_def split: option.splits)

lemma handleStatus_gone:
  "pendingCommands s R = None \<Longrightarrow>
     pendingCommands (handleStatus status s) R = None
   \<and> settlementsFor R (handleStatus status s) = settlementsFor R s"
  by (cases "requestId status = R") (simp_all add: handleStatus_absent handleStatus_other)

lemma fold_handleStatus_gone:
  "pendingCommands s R = None \<Longrightarrow>
     pendingCommands (fold handleStatus xs s) R = None
   \<and> settlementsFor R (fold handleStatus xs s) = settlementsFor R s"
  by (induction xs arbitrary: s) (simp_all add: handleStatus_gone)

lemma handleStatus_intermediate:
  "pendingCommands s (requestId status) = Some p \<Longrightarrow> \<not> terminalStatus status \<Longrightarrow>
     pendingCommands (handleStatus status s) = pendingCommands s
   \<and> settlements (handleStatus status s) = settlements s"
  by (simp add: handleStatus_def terminalStatus_def clearTimeout_def Let_def)

lemma handleStatus_terminal:
  "pendingCommands s (requestId status) = Some p \<Longrightarrow> terminalStatus status \<Longrightarrow>
     pendingCommands (handleStatus status s) (requestId status) = None
   \<and> settlements (handleStatus status s) = settlements s @ [settleOutcome status]"
  by (auto simp add: handleStatus_def terminalStatus_def clearTimeout_def Let_def settleOutcome_def)

lemma fold_handleStatus_first_terminal:
  "pendingCommands s R = Some p \<Longrightarrow>
   find (\<lambda>status. requestId status = R \<and> terminalStatus status) xs = Some st \<Longrightarrow>
     pendingCommands (fold handleStatus xs s) R = None
   \<and> settlementsFor R (fold handleStatus xs s) = settlementsFor R s @ [settleOutcome st]"
proof (induction xs arbitrary: s)
  case Nil
  then show ?case by simp
next
  case (Cons x xs)
  show ?case
  proof (cases "requestId x = R")
    case False
    with Cons.prems have "find (\<lambda>status. requestId status = R \<and> terminalStatus status) xs = Some st"
      by simp
    moreover from False Cons.prems have "pendingCommands (handleStatus x s) R = Some p"
      by (simp add: handleStatus_other)
    ultimately show ?thesis
      using Cons.IH [of "handleStatus x s"] False by (simp add: handleStatus_other)
  next
    case True
    show ?thesis
    proof (cases "terminalStatus x")
      case False
      with True Cons.prems have f: "find (\<lambda>status. requestId status = R \<and> terminalStatus status) xs = Some st"
        by simp
      from True False Cons.prems have k: "pendingCommands (handleStatus x s) = pendingCommands s"
        "settlements (handleStatus x s) = settlements s"
        using handleStatus_intermediate [of s x p] by simp_all
      from Cons.IH [of "handleStatus x s"] f k Cons.prems show ?thesis
        by (simp add: settlementsFor_def)
    next
      case t: True
      with True Cons.prems have st: "st = x" by simp
      from True t Cons.prems have g: "pendingCommands (handleStatus x s) R = None"
        "settlements (handleStatus x s) = settlements s @ [settleOutcome x]"
        using handleStatus_terminal [of s x p] by simp_all
      from fold_handleStatus_gone [OF g(1), of xs] g(2) st True show ?thesis
        by (simp add: settlementsFor_def settleOutcome_def)
    qed
  qed
qed

lemma js_includes_prefix: "js_includes (m @ b) m"
proof (cases "m @ b")
  case Nil
  then show ?thesis by simp
next
  case (Cons c cs)
  have "take (length m) (c # cs) = m"
    using Cons [symmetric] by simp
  then show ?thesis using Cons by simp
qed

lemma js_includes_mid: "js_includes (a @ m @ b) m"
proof (induction a)
  case Nil
  show ?case by (simp add: js_includes_prefix)
next
  case (Cons x a)
  then show ?case by simp
qed

lemma errorMessage_includes:
  "js_includes (errorMessage (Some e)) (message e) \<and> js_includes (errorMessage (Some e)) (code e)"
proof -
  have m: "js_includes (errorMessage (Some e)) (message e)"
  proof (cases "message e = []")
    case True
    then show ?thesis using js_includes_mid [of "errorMessage (Some e)" "[]" "[]"] by simp
  next
    case False
    then show ?thesis
      using js_includes_mid [of "''Command failed: ''" "message e" "(if code e \<noteq> [] then '' ('' @ code e @ '')'' else [])"]
      by (simp add: errorMessage_def)
  qed
  have c: "js_includes (errorMessage (Some e)) (code e)"
  proof (cases "code e = []")
    case True
    then show ?thesis using js_includes_mid [of "errorMessage (Some e)" "[]" "[]"] by simp
  next
    case False
    then show ?thesis
      using js_includes_mid [of "''Command failed'' @ (if message e \<noteq> [] then '': '' @ message e else []) @ '' (''" "code e" "'')''"]
      by (simp add: errorMessage_def)
  qed
  from m c show ?thesis by simp
qed

lemmas fixture_defs = knownMessageTypes_def constParser_def statusFrame_def abcPending_def
  statusEntries_def terminalStatus_def settlementsFor_def settleOutcome_def

text \<open>
  Claim C7. Let a command be pending under the request identifier \<open>R\<close>, and let \<open>st\<close> be
  the first terminal status entry for \<open>R\<close> in an inbound command-status update. After
  the update is handled the entry for \<open>R\<close> is gone from the tracker. If the mapped status
  is \<open>FINISHED\<close> the success callback of \<open>R\<close> has been invoked once; if it is
  \<open>FAILED\<close> the failure callback has been invoked once, with an error whose text
  contains the message and the code of the status entry's error.
\<close>

theorem status_update_settles_pending_command:
  assumes "pendingCommands s R = Some p"
    and "find (\<lambda>status. requestId status = R \<and> terminalStatus status) (statusEntries su) = Some st"
  shows "pendingCommands (handleCommandStatusUpdates su s) R = None
    \<and> (mapState (state st) = ''FINISHED'' \<longrightarrow>
         settlementsFor R (handleCommandStatusUpdates su s)
           = settlementsFor R s @ [Resolved R ''FINISHED''])
    \<and> (mapState (state st) = ''FAILED'' \<longrightarrow>
         settlementsFor R (handleCommandStatusUpdates su s)
           = settlementsFor R s @ [Rejected R (errorMessage (errors st))])
    \<and> (\<forall>e. errors st = Some e \<longrightarrow>
         js_includes (errorMessage (errors st)) (message e)
         \<and> js_includes (errorMessage (errors st)) (code e))"
proof -
  from assms(2) have st: "requestId st = R" "terminalStatus st"
    by (auto dest: find_Some_iff [THEN iffD1])
  have main: "pendingCommands (handleCommandStatusUpdates su s) R = None
      \<and> settlementsFor R (handleCommandStatusUpdates su s) = settlementsFor R s @ [settleOutcome st]"
    using fold_handleStatus_first_terminal [OF assms] by (simp add: handleCommandStatusUpdates_fold)
  have fin: "mapState (state st) = ''FINISHED'' \<Longrightarrow> settleOutcome st = Resolved R ''FINISHED''"
    using st by (simp add: settleOutcome_def)
  have fail: "mapState (state st) = ''FAILED'' \<Longrightarrow> settleOutcome st = Rejected R (errorMessage (errors st))"
    using st by (simp add: settleOutcome_def)
  have contained: "\<forall>e. errors st = Some e \<longrightarrow>
         js_includes (errorMessage (errors st)) (message e)
         \<and> js_includes (errorMessage (errors st)) (code e)"
    using errorMessage_includes by simp
  from main fin fail contained show ?thesis by simp
qed

theorem status_update_settles_pending_command_witness:
  "pendingCommands abcPending ''abc'' = Some \<lparr> timeout = 2 \<rparr>
   \<and> find (\<lambda>status. requestId status = ''abc'' \<and> terminalStatus status)
        (statusEntries (apptwinCommandStatusUpdatesByVin
           (statusFrame ''abc'' 6 (Some \<lparr> code = ''42'', message = ''denied'' \<rparr>) 7)))
      = Some \<lparr> requestId = ''abc'', state = 6, errors = Some \<lparr> code = ''42'', message = ''denied'' \<rparr> \<rparr>
   \<and> pendingCommands (handleCommandStatusUpdates (apptwinCommandStatusUpdatesByVin
           (statusFrame ''abc'' 6 (Some \<lparr> code = ''42'', message = ''denied'' \<rparr>) 7)) abcPending) ''abc'' = None
   \<and> settlementsFor ''abc'' (handleCommandStatusUpdates (apptwinCommandStatusUpdatesByVin
           (statusFrame ''abc'' 6 (Some \<lparr> code = ''42'', message = ''denied'' \<rparr>) 7)) abcPending)
      = [Rejected ''abc'' ''Command failed: denied (42)'']
   \<and> js_includes ''Command failed: denied (42)'' ''denied''
   \<and> js_includes ''Command failed: denied (42)'' ''42''"
  using status_update_settles_pending_command
    [of abcPending "''abc''" "\<lparr> timeout = 2 \<rparr>"
        "apptwinCommandStatusUpdatesByVin
           (statusFrame ''abc'' 6 (Some \<lparr> code = ''42'', message = ''denied'' \<rparr>) 7)"
        "\<lparr> requestId = ''abc'', state = 6, errors = Some \<lparr> code = ''42'', message = ''denied'' \<rparr> \<rparr>"]
  by (simp add: ws_defs fixture_defs Let_def)

section \<open>Message dispatcher\<close>

lemma sendMessage_only_sent: "(sendMessage f s)\<lparr> sent := sent s \<rparr> = s"
  by (simp add: sendMessage_def split: option.splits)

lemma processMessage_status_frame:
  assumes "parsePushMessage P data = Inr (Some m)"
    and "msg m = Some ''apptwin_command_status_updates_by_vin''"
  shows "processMessage P data s =
     Inr (case apptwinCommandStatusUpdatesByVin m of
            None \<Rightarrow> s
          | Some u \<Rightarrow>
              (if sequenceNumber u = 0 then handleCommandStatusUpdates (Some u) s
               else sendMessage (AcknowledgeAppTwinCommandStatusUpdateByVin (sequenceNumber u))
                      (handleCommandStatusUpdates (Some u) s)))"
  using assms
  by (simp add: processMessage_def processMessage_try_def dispatch_def ackIfSequenced_def
      handleCommandStatusUpdates_def Let_def split: option.splits)

text \<open>
  Claim C4. A command-status frame none of whose request identifiers is in the tracker
  leaves the whole state as it was when \<^verbatim>\<open>_handleCommandStatusUpdates\<close> handles it, and
  dispatching it through \<^verbatim>\<open>_processMessage\<close> raises no exception and changes nothing but
  the list of frames sent, which gains the acknowledgment of the frame's sequence number
  when it has one.
\<close>

theorem unknown_request_id_is_ignored:
  assumes "\<forall>status \<in> set (statusEntries (apptwinCommandStatusUpdatesByVin m)).
             pendingCommands s (requestId status) = None"
    and "parsePushMessage P data = Inr (Some m)"
    and "msg m = Some ''apptwin_command_status_updates_by_vin''"
  shows "handleCommandStatusUpdates (apptwinCommandStatusUpdatesByVin m) s = s
    \<and> processMessage P data s =
        Inr (case apptwinCommandStatusUpdatesByVin m of
               None \<Rightarrow> s
             | Some u \<Rightarrow>
                 (if sequenceNumber u = 0 then s
                  else sendMessage (AcknowledgeAppTwinCommandStatusUpdateByVin (sequenceNumber u)) s))
    \<and> (\<exists>s'. processMessage P data s = Inr s' \<and> s'\<lparr> sent := sent s \<rparr> = s)"
proof -
  have same: "handleCommandStatusUpdates (apptwinCommandStatusUpdatesByVin m) s = s"
    using assms(1) by (simp add: handleCommandStatusUpdates_fold fold_handleStatus_absent)
  have result: "processMessage P data s =
        Inr (case apptwinCommandStatusUpdatesByVin m of
               None \<Rightarrow> s
             | Some u \<Rightarrow>
                 (if sequenceNumber u = 0 then s
                  else sendMessage (AcknowledgeAppTwinCommandStatusUpdateByVin (sequenceNumber u)) s))"
    using processMessage_status_frame [OF assms(2,3), of s] same
    by (auto split: option.splits)
  have frame: "\<exists>s'. processMessage P data s = Inr s' \<and> s'\<lparr> sent := sent s \<rparr> = s"
    unfolding result by (simp add: sendMessage_only_sent split: option.splits)
  from same result frame show ?thesis by simp
qed

theorem unknown_request_id_is_ignored_witness:
  "pendingCommands abcPending ''zzz'' = None
   \<and> parsePushMessage (constParser (statusFrame ''zzz'' 5 None 7)) [] = Inr (Some (statusFrame ''zzz'' 5 None 7))
   \<and> msg (statusFrame ''zzz'' 5 None 7) = Some ''apptwin_command_status_updates_by_vin''
   \<and> handleCommandStatusUpdates (apptwinCommandStatusUpdatesByVin (statusFrame ''zzz'' 5 None 7)) abcPending
       = abcPending
   \<and> processMessage (constParser (statusFrame ''zzz'' 5 None 7)) [] abcPending
       = Inr (abcPending\<lparr> sent := sent abcPending @ [(0, AcknowledgeAppTwinCommandStatusUpdateByVin 7)] \<rparr>)"
  using unknown_request_id_is_ignored
    [of "statusFrame ''zzz'' 5 None 7" abcPending "constParser (statusFrame ''zzz'' 5 None 7)" "[]"]
  by (simp add: ws_defs fixture_defs Let_def)

lemma processMessage_returns: "\<exists>s'. processMessage P data s = Inr s'"
  by (cases "processMessage_try P data s") (auto simp: processMessage_def)

lemma processMessage_undecodable:
  "parsePushMessage P data = Inl e \<or> parsePushMessage P data = Inr None \<Longrightarrow>
     processMessage P data s = Inr s"
  by (auto simp: processMessage_def processMessage_try_def)

lemma dispatch_unrecognized:
  "\<forall>t \<in> set knownMessageTypes. msg m \<noteq> Some t \<Longrightarrow> dispatch P m s = Inr (None, s)"
  by (simp add: dispatch_def knownMessageTypes_def)

lemma mapState_outside: "c < 0 \<or> 6 < c \<Longrightarrow> mapState c = ''UNKNOWN''"
  by (auto simp: mapState_def STATE_MAP_def)

lemma handleStatus_unknown_code:
  "state status < 0 \<or> 6 < state status \<Longrightarrow>
     pendingCommands (handleStatus status s) = pendingCommands s
   \<and> settlements (handleStatus status s) = settlements s"
  by (auto simp: handleStatus_def mapState_outside clearTimeout_def Let_def split: option.splits)

text \<open>
  Claim C8. \<^verbatim>\<open>_processMessage\<close> never throws, whatever the bytes. A frame that fails to
  decode leaves the state unchanged (the \<^verbatim>\<open>message\<close> listener has only restarted the two
  watchdogs); a decoded frame of an unrecognized variant leaves the state unchanged, so
  nothing is acknowledged; and a status entry whose state code is outside 0..6 is mapped
  to \<open>UNKNOWN\<close> and settles nothing.
\<close>

theorem dispatch_never_throws:
  "(\<exists>s'. processMessage P data s = Inr s')
   \<and> (parsePushMessage P data = Inl e \<or> parsePushMessage P data = Inr None \<longrightarrow>
        processMessage P data s = Inr s
        \<and> on_message P data s = resetPingWatchdog (resetConnectionWatchdog s))
   \<and> (parsePushMessage P data = Inr (Some m) \<and> (\<forall>t \<in> set knownMessageTypes. msg m \<noteq> Some t) \<longrightarrow>
        processMessage P data s = Inr s)
   \<and> (state status < 0 \<or> 6 < state status \<longrightarrow>
        mapState (state status) = ''UNKNOWN''
        \<and> pendingCommands (handleStatus status s) = pendingCommands s
        \<and> settlements (handleStatus status s) = settlements s)"
proof -
  have a: "\<exists>s'. processMessage P data s = Inr s'"
    by (rule processMessage_returns)
  have b: "parsePushMessage P data = Inl e \<or> parsePushMessage P data = Inr None \<longrightarrow>
        processMessage P data s = Inr s
        \<and> on_message P data s = resetPingWatchdog (resetConnectionWatchdog s)"
    by (auto simp: processMessage_undecodable on_message_def)
  have c: "parsePushMessage P data = Inr (Some m) \<and> (\<forall>t \<in> set knownMessageTypes. msg m \<noteq> Some t) \<longrightarrow>
        processMessage P data s = Inr s"
    by (auto simp: processMessage_def processMessage_try_def dispatch_unrecognized)
  have d: "state status < 0 \<or> 6 < state status \<longrightarrow>
        mapState (state status) = ''UNKNOWN''
        \<and> pendingCommands (handleStatus status s) = pendingCommands s
        \<and> settlements (handleStatus status s) = settlements s"
    using handleStatus_unknown_code [of status s] mapState_outside [of "state status"] by blast
  from a b c d show ?thesis by blast
qed

theorem dispatch_never_throws_witness:
  "parsePushMessage failingParser [255] = Inl ''index out of range''
   \<and> processMessage failingParser [255] abcPending = Inr abcPending
   \<and> on_message failingParser [255] abcPending
       = resetPingWatchdog (resetConnectionWatchdog abcPending)
   \<and> parsePushMessage (constParser futureFrame) [] = Inr (Some futureFrame)
   \<and> msg futureFrame = Some ''futureVariant''
   \<and> processMessage (constParser futureFrame) [] abcPending = Inr abcPending
   \<and> mapState 9 = ''UNKNOWN''
   \<and> pendingCommands (handleStatus \<lparr> requestId = ''abc'', state = 9, errors = None \<rparr> abcPending)
       = pendingCommands abcPending
   \<and> settlements (handleStatus \<lparr> requestId = ''abc'', state = 9, errors = None \<rparr> abcPending)
       = settlements abcPending"
  using dispatch_never_throws
    [of failingParser "[255]" abcPending "''index out of range''" futureFrame
        "\<lparr> requestId = ''abc'', state = 9, errors = None \<rparr>"]
    dispatch_never_throws
    [of "constParser futureFrame" "[]" abcPending "[]" futureFrame
        "\<lparr> requestId = ''abc'', state = 9, errors = None \<rparr>"]
  by (simp add: failingParser_def futureFrame_def constParser_def knownMessageTypes_def)

section \<open>Frame lemmas\<close>

text \<open>What each operation leaves unchanged.\<close>

lemma shrinks_refl [simp]: "shrinks s s"
  by (simp add: shrinks_def)

lemma shrinks_update [simp]:
  "shrinks s (ws_update f1 s') = shrinks s s'"
  "shrinks s (isConnecting_update f2 s') = shrinks s s'"
  "shrinks s (isStopping_update f3 s') = shrinks s s'"
  "shrinks s (connectionState_update f4 s') = shrinks s s'"
  "shrinks s (messageHandler_update f5 s') = shrinks s s'"
  "shrinks s (pendingCommands_update f6 s') = shrinks s s'"
  "shrinks s (reconnectAttempts_update f7 s') = shrinks s s'"
  "shrinks s (reconnectTimer_update f8 s') = shrinks s s'"
  "shrinks s (connectionWatchdog_update f9 s') = shrinks s s'"
  "shrinks s (pingWatchdog_update f10 s') = shrinks s s'"
  "shrinks s (accountBlocked_update f11 s') = shrinks s s'"
  "shrinks s (nextHandle_update f12 s') = shrinks s s'"
  "shrinks s (sockets_update f13 s') = shrinks s s'"
  "shrinks s (nextSocket_update f14 s') = shrinks s s'"
  "shrinks s (connectsAwaiting_update f15 s') = shrinks s s'"
  "shrinks s (sent_update f16 s') = shrinks s s'"
  "shrinks s (pings_update f17 s') = shrinks s s'"
  "shrinks s (settlements_update f18 s') = shrinks s s'"
  "shrinks s (delivered_update f19 s') = shrinks s s'"
  by (simp_all add: shrinks_def)

lemma shrinks_clearTimeout [simp]: "shrinks s s' \<Longrightarrow> shrinks s (clearTimeout h s')"
  by (simp add: shrinks_def clearTimeout_def)

lemma shrinks_setTimeout [simp]:
  "shrinks s s' \<Longrightarrow> shrinks s (setTimeout ConnectionWatchdogCallback d s')"
  "shrinks s s' \<Longrightarrow> shrinks s (setTimeout PingWatchdogCallback d s')"
  "shrinks s s' \<Longrightarrow> shrinks s (setTimeout ReconnectCallback d s')"
  by (simp_all add: shrinks_def setTimeout_def)

lemma clearTimeout_fields [simp]:
  "connectionState (clearTimeout h s) = connectionState s"
  "isStopping (clearTimeout h s) = isStopping s"
  "isConnecting (clearTimeout h s) = isConnecting s"
  "ws (clearTimeout h s) = ws s"
  "sockets (clearTimeout h s) = sockets s"
  "connectsAwaiting (clearTimeout h s) = connectsAwaiting s"
  "pendingCommands (clearTimeout h s) = pendingCommands s"
  "settlements (clearTimeout h s) = settlements s"
  "messageHandler (clearTimeout h s) = messageHandler s"
  "reconnectTimer (clearTimeout h s) = reconnectTimer s"
  by (simp_all add: clearTimeout_def)

lemma setTimeout_fields [simp]:
  "connectionState (setTimeout cb d s) = connectionState s"
  "isStopping (setTimeout cb d s) = isStopping s"
  "isConnecting (setTimeout cb d s) = isConnecting s"
  "ws (setTimeout cb d s) = ws s"
  "sockets (setTimeout cb d s) = sockets s"
  "connectsAwaiting (setTimeout cb d s) = connectsAwaiting s"
  "pendingCommands (setTimeout cb d s) = pendingCommands s"
  "settlements (setTimeout cb d s) = settlements s"
  "messageHandler (setTimeout cb d s) = messageHandler s"
  "reconnectTimer (setTimeout cb d s) = reconnectTimer s"
  by (simp_all add: setTimeout_def)

lemma stopConnectionWatchdog_fields [simp]:
  "connectionState (stopConnectionWatchdog s) = connectionState s"
  "isStopping (stopConnectionWatchdog s) = isStopping s"
  "isConnecting (stopConnectionWatchdog s) = isConnecting s"
  "ws (stopConnectionWatchdog s) = ws s"
  "sockets (stopConnectionWatchdog s) = sockets s"
  "connectsAwaiting (stopConnectionWatchdog s) = connectsAwaiting s"
  "pendingCommands (stopConnectionWatchdog s) = pendingCommands s"
  "settlements (stopConnectionWatchdog s) = settlements s"
  "messageHandler (stopConnectionWatchdog s) = messageHandler s"
  "reconnectTimer (stopConnectionWatchdog s) = reconnectTimer s"
  by (simp_all add: stopConnectionWatchdog_def split: option.splits)

lemma shrinks_stopConnectionWatchdog [simp]: "shrinks s s' \<Longrightarrow> shrinks s (stopConnectionWatchdog s')"
  by (simp add: stopConnectionWatchdog_def split: option.splits)

lemma startConnectionWatchdog_fields [simp]:
  "connectionState (startConnectionWatchdog s) = connectionState s"
  "isStopping (startConnectionWatchdog s) = isStopping s"
  "isConnecting (startConnectionWatchdog s) = isConnecting s"
  "ws (startConnectionWatchdog s) = ws s"
  "sockets (startConnectionWatchdog s) = sockets s"
  "connectsAwaiting (startConnectionWatchdog s) = connectsAwaiting s"
  "pendingCommands (startConnectionWatchdog s) = pendingCommands s"
  "settlements (startConnectionWatchdog s) = settlements s"
  "messageHandler (startConnectionWatchdog s) = messageHandler s"
  "reconnectTimer (startConnectionWatchdog s) = reconnectTimer s"
  by (simp_all add: startConnectionWatchdog_def Let_def split: option.splits)

lemma shrinks_startConnectionWatchdog [simp]: "shrinks s s' \<Longrightarrow> shrinks s (startConnectionWatchdog s')"
  by (simp add: startConnectionWatchdog_def Let_def split: option.splits)

lemma resetConnectionWatchdog_fields [simp]:
  "connectionState (resetConnectionWatchdog s) = connectionState s"
  "isStopping (resetConnectionWatchdog s) = isStopping s"
  "isConnecting (resetConnectionWatchdog s) = isConnecting s"
  "ws (resetConnectionWatchdog s) = ws s"
  "sockets (resetConnectionWatchdog s) = sockets s"
  "connectsAwaiting (resetConnectionWatchdog s) = connectsAwaiting s"
  "pendingCommands (resetConnectionWatchdog s) = pendingCommands s"
  "settlements (resetConnectionWatchdog s) = settlements s"
  "messageHandler (resetConnectionWatchdog s) = messageHandler s"
  "reconnectTimer (resetConnectionWatchdog s) = reconnectTimer s"
  by (simp_all add: resetConnectionWatchdog_def split: option.splits)

lemma shrinks_resetConnectionWatchdog [simp]: "shrinks s s' \<Longrightarrow> shrinks s (resetConnectionWatchdog s')"
  by (simp add: resetConnectionWatchdog_def split: option.splits)

lemma stopPingWatchdog_fields [simp]:
  "connectionState (stopPingWatchdog s) = connectionState s"
  "isStopping (stopPingWatchdog s) = isStopping s"
  "isConnecting (stopPingWatchdog s) = isConnecting s"
  "ws (stopPingWatchdog s) = ws s"
  "sockets (stopPingWatchdog s) = sockets s"
  "connectsAwaiting (stopPingWatchdog s) = connectsAwaiting s"
  "pendingCommands (stopPingWatchdog s) = pendingCommands s"
  "settlements (stopPingWatchdog s) = settlements s"
  "messageHandler (stopPingWatchdog s) = messageHandler s"
  "reconnectTimer (stopPingWatchdog s) = reconnectTimer s"
  by (simp_all add: stopPingWatchdog_def split: option.splits)

lemma shrinks_stopPingWatchdog [simp]: "shrinks s s' \<Longrightarrow> shrinks s (stopPingWatchdog s')"
  by (simp add: stopPingWatchdog_def split: option.splits)

lemma startPingWatchdog_fields [simp]:
  "connectionState (startPingWatchdog s) = connectionState s"
  "isStopping (startPingWatchdog s) = isStopping s"
  "isConnecting (startPingWatchdog s) = isConnecting s"
  "ws (startPingWatchdog s) = ws s"
  "sockets (startPingWatchdog s) = sockets s"
  "connectsAwaiting (startPingWatchdog s) = connectsAwaiting s"
  "pendingCommands (startPingWatchdog s) = pendingCommands s"
  "settlements (startPingWatchdog s) = settlements s"
  "messageHandler (startPingWatchdog s) = messageHandler s"
  "reconnectTimer (startPingWatchdog s) = reconnectTimer s"
  by (simp_all add: startPingWatchdog_def Let_def split: option.splits)

lemma shrinks_startPingWatchdog [simp]: "shrinks s s' \<Longrightarrow> shrinks s (startPingWatchdog s')"
  by (simp add: startPingWatchdog_def Let_def split: option.splits)

lemma resetPingWatchdog_fields [simp]:
  "connectionState (resetPingWatchdog s) = connectionState s"
  "isStopping (resetPingWatchdog s) = isStopping s"
  "isConnecting (resetPingWatchdog s) = isConnecting s"
  "ws (resetPingWatchdog s) = ws s"
  "sockets (resetPingWatchdog s) = sockets s"
  "connectsAwaiting (resetPingWatchdog s) = connectsAwaiting s"
  "pendingCommands (resetPingWatchdog s) = pendingCommands s"
  "settlements (resetPingWatchdog s) = settlements s"
  "messageHandler (resetPingWatchdog s) = messageHandler s"
  "reconnectTimer (resetPingWatchdog s) = reconnectTimer s"
  by (simp_all add: resetPingWatchdog_def split: option.splits)

lemma shrinks_resetPingWatchdog [simp]: "shrinks s s' \<Longrightarrow> shrinks s (resetPingWatchdog s')"
  by (simp add: resetPingWatchdog_def split: option.splits)

lemma stopWatchdogs_fields [simp]:
  "connectionState (stopWatchdogs s) = connectionState s"
  "isStopping (stopWatchdogs s) = isStopping s"
  "isConnecting (stopWatchdogs s) = isConnecting s"
  "ws (stopWatchdogs s) = ws s"
  "sockets (stopWatchdogs s) = sockets s"
  "connectsAwaiting (stopWatchdogs s) = connectsAwaiting s"
  "pendingCommands (stopWatchdogs s) = pendingCommands s"
  "settlements (stopWatchdogs s) = settlements s"
  "messageHandler (stopWatchdogs s) = messageHandler s"
  "reconnectTimer (stopWatchdogs s) = reconnectTimer s"
  by (simp_all add: stopWatchdogs_def split: option.splits)

lemma shrinks_stopWatchdogs [simp]: "shrinks s s' \<Longrightarrow> shrinks s (stopWatchdogs s')"
  by (simp add: stopWatchdogs_def split: option.splits)

lemma sendMessage_fields [simp]:
  "connectionState (sendMessage f s) = connectionState s"
  "isStopping (sendMessage f s) = isStopping s"
  "isConnecting (sendMessage f s) = isConnecting s"
  "ws (sendMessage f s) = ws s"
  "sockets (sendMessage f s) = sockets s"
  "connectsAwaiting (sendMessage f s) = connectsAwaiting s"
  "pendingCommands (sendMessage f s) = pendingCommands s"
  "settlements (sendMessage f s) = settlements s"
  "messageHandler (sendMessage f s) = messageHandler s"
  "reconnectTimer (sendMessage f s) = reconnectTimer s"
  by (simp_all add: sendMessage_def split: option.splits)

lemma shrinks_sendMessage [simp]: "shrinks s s' \<Longrightarrow> shrinks s (sendMessage f s')"
  by (simp add: sendMessage_def split: option.splits)

lemma sendPing_fields [simp]:
  "connectionState (sendPing s) = connectionState s"
  "isStopping (sendPing s) = isStopping s"
  "isConnecting (sendPing s) = isConnecting s"
  "ws (sendPing s) = ws s"
  "sockets (sendPing s) = sockets s"
  "connectsAwaiting (sendPing s) = connectsAwaiting s"
  "pendingCommands (sendPing s) = pendingCommands s"
  "settlements (sendPing s) = settlements s"
  "messageHandler (sendPing s) = messageHandler s"
  "reconnectTimer (sendPing s) = reconnectTimer s"
  by (simp_all add: sendPing_def split: option.splits)

lemma shrinks_sendPing [simp]: "shrinks s s' \<Longrightarrow> shrinks s (sendPing s')"
  by (simp add: sendPing_def split: option.splits)

lemma on_pong_fields [simp]:
  "connectionState (on_pong s) = connectionState s"
  "isStopping (on_pong s) = isStopping s"
  "isConnecting (on_pong s) = isConnecting s"
  "ws (on_pong s) = ws s"
  "sockets (on_pong s) = sockets s"
  "connectsAwaiting (on_pong s) = connectsAwaiting s"
  "pendingCommands (on_pong s) = pendingCommands s"
  "settlements (on_pong s) = settlements s"
  "messageHandler (on_pong s) = messageHandler s"
  "reconnectTimer (on_pong s) = reconnectTimer s"
  by (simp_all add: on_pong_def split: option.splits)

lemma shrinks_on_pong [simp]: "shrinks s s' \<Longrightarrow> shrinks s (on_pong s')"
  by (simp add: on_pong_def split: option.splits)

lemma scheduleReconnect_fields [simp]:
  "connectionState (scheduleReconnect s) = connectionState s"
  "isStopping (scheduleReconnect s) = isStopping s"
  "isConnecting (scheduleReconnect s) = isConnecting s"
  "ws (scheduleReconnect s) = ws s"
  "sockets (scheduleReconnect s) = sockets s"
  "connectsAwaiting (scheduleReconnect s) = connectsAwaiting s"
  "pendingCommands (scheduleReconnect s) = pendingCommands s"
  "settlements (scheduleReconnect s) = settlements s"
  "messageHandler (scheduleReconnect s) = messageHandler s"
  by (simp_all add: scheduleReconnect_def Let_def )

lemma shrinks_scheduleReconnect [simp]: "shrinks s s' \<Longrightarrow> shrinks s (scheduleReconnect s')"
  by (simp add: scheduleReconnect_def Let_def )

lemma connect_catch_fields [simp]:
  "connectionState (connect_catch s) = connectionState s"
  "isStopping (connect_catch s) = isStopping s"
  "ws (connect_catch s) = ws s"
  "sockets (connect_catch s) = sockets s"
  "connectsAwaiting (connect_catch s) = connectsAwaiting s"
  "pendingCommands (connect_catch s) = pendingCommands s"
  "settlements (connect_catch s) = settlements s"
  "messageHandler (connect_catch s) = messageHandler s"
  by (simp_all add: connect_catch_def )

lemma shrinks_connect_catch [simp]: "shrinks s s' \<Longrightarrow> shrinks s (connect_catch s')"
  by (simp add: connect_catch_def )

lemma settleConnect_fields [simp]:
  "connectionState (settleConnect i s) = connectionState s"
  "isStopping (settleConnect i s) = isStopping s"
  "isConnecting (settleConnect i s) = isConnecting s"
  "ws (settleConnect i s) = ws s"
  "connectsAwaiting (settleConnect i s) = connectsAwaiting s"
  "pendingCommands (settleConnect i s) = pendingCommands s"
  "settlements (settleConnect i s) = settlements s"
  "messageHandler (settleConnect i s) = messageHandler s"
  "reconnectTimer (settleConnect i s) = reconnectTimer s"
  by (simp_all add: settleConnect_def split: option.splits)

lemma shrinks_settleConnect [simp]: "shrinks s s' \<Longrightarrow> shrinks s (settleConnect i s')"
  by (simp add: settleConnect_def split: option.splits)

lemma setReadyState_fields [simp]:
  "connectionState (setReadyState i r s) = connectionState s"
  "isStopping (setReadyState i r s) = isStopping s"
  "isConnecting (setReadyState i r s) = isConnecting s"
  "ws (setReadyState i r s) = ws s"
  "connectsAwaiting (setReadyState i r s) = connectsAwaiting s"
  "pendingCommands (setReadyState i r s) = pendingCommands s"
  "settlements (setReadyState i r s) = settlements s"
  "messageHandler (setReadyState i r s) = messageHandler s"
  "reconnectTimer (setReadyState i r s) = reconnectTimer s"
  by (simp_all add: setReadyState_def split: option.splits)

lemma shrinks_setReadyState [simp]: "shrinks s s' \<Longrightarrow> shrinks s (setReadyState i r s')"
  by (simp add: setReadyState_def split: option.splits)

lemma socketState_settleConnect [simp]: "socketState (settleConnect i s) j = socketState s j"
  by (simp add: settleConnect_def socketState_def split: option.splits)

lemma socketState_setReadyState [simp]:
  "socketState (setReadyState i r s) j =
     (if j = i \<and> socketState s i \<noteq> None then Some r else socketState s j)"
  by (simp add: setReadyState_def socketState_def split: option.splits)

lemma socketState_cong: "sockets s' = sockets s \<Longrightarrow> socketState s' i = socketState s i"
  by (simp add: socketState_def)

lemma isConnected_cong: "ws s' = ws s \<Longrightarrow> sockets s' = sockets s \<Longrightarrow> isConnected s' = isConnected s"
  by (simp add: isConnected_def socketState_def split: option.splits)

lemma handleStatus_fields [simp]:
  "connectionState (handleStatus status s) = connectionState s"
  "isStopping (handleStatus status s) = isStopping s"
  "isConnecting (handleStatus status s) = isConnecting s"
  "ws (handleStatus status s) = ws s"
  "sockets (handleStatus status s) = sockets s"
  "connectsAwaiting (handleStatus status s) = connectsAwaiting s"
  "messageHandler (handleStatus status s) = messageHandler s"
  "reconnectTimer (handleStatus status s) = reconnectTimer s"
  by (simp_all add: handleStatus_def Let_def split: option.splits)

lemma fold_handleStatus_fields [simp]:
  "connectionState (fold handleStatus xs s) = connectionState s"
  "isStopping (fold handleStatus xs s) = isStopping s"
  "isConnecting (fold handleStatus xs s) = isConnecting s"
  "ws (fold handleStatus xs s) = ws s"
  "sockets (fold handleStatus xs s) = sockets s"
  "connectsAwaiting (fold handleStatus xs s) = connectsAwaiting s"
  "messageHandler (fold handleStatus xs s) = messageHandler s"
  "reconnectTimer (fold handleStatus xs s) = reconnectTimer s"
  by (induction xs arbitrary: s) simp_all

lemma handleCommandStatusUpdates_fields [simp]:
  "connectionState (handleCommandStatusUpdates su s) = connectionState s"
  "isStopping (handleCommandStatusUpdates su s) = isStopping s"
  "isConnecting (handleCommandStatusUpdates su s) = isConnecting s"
  "ws (handleCommandStatusUpdates su s) = ws s"
  "sockets (handleCommandStatusUpdates su s) = sockets s"
  "connectsAwaiting (handleCommandStatusUpdates su s) = connectsAwaiting s"
  "messageHandler (handleCommandStatusUpdates su s) = messageHandler s"
  "reconnectTimer (handleCommandStatusUpdates su s) = reconnectTimer s"
  by (simp_all add: handleCommandStatusUpdates_fold )

lemma processVepUpdate_fields [simp]:
  "connectionState (processVepUpdate P vin u s) = connectionState s"
  "isStopping (processVepUpdate P vin u s) = isStopping s"
  "isConnecting (processVepUpdate P vin u s) = isConnecting s"
  "ws (processVepUpdate P vin u s) = ws s"
  "sockets (processVepUpdate P vin u s) = sockets s"
  "connectsAwaiting (processVepUpdate P vin u s) = connectsAwaiting s"
  "messageHandler (processVepUpdate P vin u s) = messageHandler s"
  "reconnectTimer (processVepUpdate P vin u s) = reconnectTimer s"
  "pendingCommands (processVepUpdate P vin u s) = pendingCommands s"
  "settlements (processVepUpdate P vin u s) = settlements s"
  "timers (processVepUpdate P vin u s) = timers s"
  by (simp_all add: processVepUpdate_def split: sum.splits option.splits)

lemma fold_processVepUpdate_fields [simp]:
  "connectionState (fold (\<lambda>(vin, u). processVepUpdate P vin u) us s) = connectionState s"
  "isStopping (fold (\<lambda>(vin, u). processVepUpdate P vin u) us s) = isStopping s"
  "isConnecting (fold (\<lambda>(vin, u). processVepUpdate P vin u) us s) = isConnecting s"
  "ws (fold (\<lambda>(vin, u). processVepUpdate P vin u) us s) = ws s"
  "sockets (fold (\<lambda>(vin, u). processVepUpdate P vin u) us s) = sockets s"
  "connectsAwaiting (fold (\<lambda>(vin, u). processVepUpdate P vin u) us s) = connectsAwaiting s"
  "messageHandler (fold (\<lambda>(vin, u). processVepUpdate P vin u) us s) = messageHandler s"
  "reconnectTimer (fold (\<lambda>(vin, u). processVepUpdate P vin u) us s) = reconnectTimer s"
  "pendingCommands (fold (\<lambda>(vin, u). processVepUpdate P vin u) us s) = pendingCommands s"
  "settlements (fold (\<lambda>(vin, u). processVepUpdate P vin u) us s) = settlements s"
  "timers (fold (\<lambda>(vin, u). processVepUpdate P vin u) us s) = timers s"
  by (induction us arbitrary: s) (simp_all split: prod.splits)

lemma dispatch_fields:
  assumes "dispatch P m s = Inr (ack, s1) \<or> dispatch P m s = Inl (e, s1)"
  shows "connectionState s1 = connectionState s" "isStopping s1 = isStopping s" "isConnecting s1 = isConnecting s" "ws s1 = ws s" "sockets s1 = sockets s" "connectsAwaiting s1 = connectsAwaiting s" "messageHandler s1 = messageHandler s" "reconnectTimer s1 = reconnectTimer s"
  using assms
  by (auto simp: dispatch_def Let_def split: if_splits option.splits)

lemma processMessage_fields:
  assumes "processMessage P data s = Inr s1"
  shows "connectionState s1 = connectionState s" "isStopping s1 = isStopping s" "isConnecting s1 = isConnecting s" "ws s1 = ws s" "sockets s1 = sockets s" "connectsAwaiting s1 = connectsAwaiting s" "messageHandler s1 = messageHandler s" "reconnectTimer s1 = reconnectTimer s"
proof -
  have "\<exists>m ack s0. (s1 = s \<or> ((dispatch P m s = Inr (ack, s0) \<or> (\<exists>e. dispatch P m s = Inl (e, s0)))
            \<and> (s1 = s0 \<or> (\<exists>f. s1 = sendMessage f s0))))"
    using assms
    by (auto simp: processMessage_def processMessage_try_def split: sum.splits option.splits prod.splits)
  then obtain m ack s0 where
    k: "s1 = s \<or> ((dispatch P m s = Inr (ack, s0) \<or> (\<exists>e. dispatch P m s = Inl (e, s0)))
            \<and> (s1 = s0 \<or> (\<exists>f. s1 = sendMessage f s0)))"
    by blast
  show "connectionState s1 = connectionState s" "isStopping s1 = isStopping s" "isConnecting s1 = isConnecting s" "ws s1 = ws s" "sockets s1 = sockets s" "connectsAwaiting s1 = connectsAwaiting s" "messageHandler s1 = messageHandler s" "reconnectTimer s1 = reconnectTimer s"
    using k dispatch_fields [of P m s ack s0] by auto
qed

lemma on_message_fields [simp]:
  "connectionState (on_message P data s) = connectionState s"
  "isStopping (on_message P data s) = isStopping s"
  "isConnecting (on_message P data s) = isConnecting s"
  "ws (on_message P data s) = ws s"
  "sockets (on_message P data s) = sockets s"
  "connectsAwaiting (on_message P data s) = connectsAwaiting s"
  "messageHandler (on_message P data s) = messageHandler s"
  "reconnectTimer (on_message P data s) = reconnectTimer s"
proof -
  obtain s1 where k: "processMessage P data (resetPingWatchdog (resetConnectionWatchdog s)) = Inr s1"
    using processMessage_returns by blast
  then have e: "on_message P data s = s1"
    by (simp add: on_message_def)
  show "connectionState (on_message P data s) = connectionState s" "isStopping (on_message P data s) = isStopping s" "isConnecting (on_message P data s) = isConnecting s" "ws (on_message P data s) = ws s" "sockets (on_message P data s) = sockets s" "connectsAwaiting (on_message P data s) = connectsAwaiting s" "messageHandler (on_message P data s) = messageHandler s" "reconnectTimer (on_message P data s) = reconnectTimer s"
    unfolding e using processMessage_fields [OF k] by simp_all
qed

lemma connect_fields [simp]:
  "connectionState (connect h s) = connectionState s"
  "isStopping (connect h s) = isStopping s"
  "ws (connect h s) = ws s"
  "sockets (connect h s) = sockets s"
  "pendingCommands (connect h s) = pendingCommands s"
  "settlements (connect h s) = settlements s"
  "timers (connect h s) = timers s"
  by (simp_all add: connect_def)

lemma connect_stopping [simp]: "isStopping s \<Longrightarrow> connect h s = s"
  by (simp add: connect_def)

lemma connectInternal_socket_fields [simp]:
  "connectionState (connectInternal_socket s) = connectionState s"
  "isStopping (connectInternal_socket s) = isStopping s"
  "pendingCommands (connectInternal_socket s) = pendingCommands s"
  "settlements (connectInternal_socket s) = settlements s"
  "timers (connectInternal_socket s) = timers s"
  by (simp_all add: connectInternal_socket_def)

lemma connectInternal_throws_fields [simp]:
  "connectionState (connectInternal_throws s) = connectionState s"
  "isStopping (connectInternal_throws s) = isStopping s"
  "ws (connectInternal_throws s) = ws s"
  "sockets (connectInternal_throws s) = sockets s"
  "pendingCommands (connectInternal_throws s) = pendingCommands s"
  "settlements (connectInternal_throws s) = settlements s"
  by (simp_all add: connectInternal_throws_def)

lemma disconnect_fields [simp]:
  "connectionState (disconnect s) = ''disconnected''"
  "isStopping (disconnect s)"
  "ws (disconnect s) = None"
  "connectsAwaiting (disconnect s) = connectsAwaiting s"
  "pendingCommands (disconnect s) = pendingCommands s"
  "settlements (disconnect s) = settlements s"
  "reconnectTimer (disconnect s) = None"
  by (simp_all add: disconnect_def Let_def split: option.splits)

lemma socketState_disconnect:
  "socketState (disconnect s) j =
     (if ws s = Some j \<and> (socketState s j = Some OPEN \<or> socketState s j = Some CONNECTING)
      then Some CLOSING else socketState s j)"
  by (simp add: disconnect_def Let_def socketState_def setReadyState_def split: option.splits)

lemma on_open_fields [simp]:
  "connectionState (on_open i s) = ''connected''"
  "isStopping (on_open i s) = isStopping s"
  "ws (on_open i s) = ws s"
  "connectsAwaiting (on_open i s) = connectsAwaiting s"
  "pendingCommands (on_open i s) = pendingCommands s"
  "settlements (on_open i s) = settlements s"
  by (simp_all add: on_open_def Let_def)

lemma on_error_fields [simp]:
  "connectionState (on_error i t s) = connectionState s"
  "isStopping (on_error i t s) = isStopping s"
  "ws (on_error i t s) = ws s"
  "connectsAwaiting (on_error i t s) = connectsAwaiting s"
  "pendingCommands (on_error i t s) = pendingCommands s"
  "settlements (on_error i t s) = settlements s"
  by (simp_all add: on_error_def Let_def split: option.splits)

lemma socketState_on_error [simp]: "socketState (on_error i t s) j = socketState s j"
  by (simp add: on_error_def Let_def socketState_def settleConnect_def split: option.splits)

lemma on_close_fields [simp]:
  "connectionState (on_close s) = ''disconnected''"
  "isStopping (on_close s) = isStopping s"
  "ws (on_close s) = ws s"
  "sockets (on_close s) = sockets s"
  "connectsAwaiting (on_close s) = connectsAwaiting s"
  "pendingCommands (on_close s) = pendingCommands s"
  "settlements (on_close s) = settlements s"
  by (simp_all add: on_close_def Let_def)

lemma commandTimeout_fields [simp]:
  "connectionState (commandTimeout rid s) = connectionState s"
  "isStopping (commandTimeout rid s) = isStopping s"
  "ws (commandTimeout rid s) = ws s"
  "sockets (commandTimeout rid s) = sockets s"
  "connectsAwaiting (commandTimeout rid s) = connectsAwaiting s"
  "timers (commandTimeout rid s) = timers s"
  by (simp_all add: commandTimeout_def)

lemma reconnectCallback_fields [simp]:
  "connectionState (reconnectCallback s) = connectionState s"
  "isStopping (reconnectCallback s) = isStopping s"
  "ws (reconnectCallback s) = ws s"
  "sockets (reconnectCallback s) = sockets s"
  "pendingCommands (reconnectCallback s) = pendingCommands s"
  "settlements (reconnectCallback s) = settlements s"
  "timers (reconnectCallback s) = timers s"
  by (simp_all add: reconnectCallback_def Let_def)

lemma handleConnectionTimeout_fields [simp]:
  "connectionState (handleConnectionTimeout s) = ''disconnected''"
  "isStopping (handleConnectionTimeout s)"
  "ws (handleConnectionTimeout s) = None"
  "connectsAwaiting (handleConnectionTimeout s) = connectsAwaiting s"
  "pendingCommands (handleConnectionTimeout s) = pendingCommands s"
  "settlements (handleConnectionTimeout s) = settlements s"
  "reconnectTimer (handleConnectionTimeout s) = None"
  "handleConnectionTimeout s = disconnect s"
  by (simp_all add: handleConnectionTimeout_def scheduleReconnect_def)

lemma sendCommand_wait_fields [simp]:
  "connectionState (sendCommand_wait s) = connectionState s"
  "isStopping (sendCommand_wait s) = isStopping s"
  "ws (sendCommand_wait s) = ws s"
  "sockets (sendCommand_wait s) = sockets s"
  "pendingCommands (sendCommand_wait s) = pendingCommands s"
  "settlements (sendCommand_wait s) = settlements s"
  "timers (sendCommand_wait s) = timers s"
  by (simp_all add: sendCommand_wait_def)

lemma sendCommand_send_fields:
  assumes "sendCommand_send payload rid t s = Inr s1"
  shows "connectionState s1 = connectionState s" "isStopping s1 = isStopping s"
    "ws s1 = ws s" "sockets s1 = sockets s" "connectsAwaiting s1 = connectsAwaiting s"
    "isConnected s"
  using assms by (auto simp: sendCommand_send_def Let_def split: if_splits)

section \<open>Invariants of a shut-down object\<close>

lemma runCallback_stopping: "isStopping s \<Longrightarrow> isStopping (runCallback cb s)"
  by (cases cb) (simp_all add: runCallback_def)

lemma fire_stopping: "isStopping s \<Longrightarrow> isStopping (fire h s)"
  by (simp add: fire_def runCallback_stopping split: option.splits prod.splits)

lemma step_stopping: "isStopping s \<Longrightarrow> isStopping (step P e s)"
  by (cases e)
    (auto simp: step_def fire_stopping dest: sendCommand_send_fields(2) split: sum.splits)

lemma run_stopping: "isStopping s \<Longrightarrow> isStopping (run P evs s)"
  unfolding run_def by (induction evs arbitrary: s) (simp_all add: step_stopping)

lemma stopped_cong:
  "isStopping s' = isStopping s \<Longrightarrow> connectsAwaiting s' = connectsAwaiting s \<Longrightarrow>
   ws s' = ws s \<Longrightarrow> connectionState s' = connectionState s \<Longrightarrow>
   (\<And>i. socketState s' i = socketState s i) \<Longrightarrow> stopped s' = stopped s"
  by (simp add: stopped_def)

lemma stopped_disconnect_again: "stopped s \<Longrightarrow> stopped (disconnect s)"
  by (simp add: stopped_def socketState_disconnect)

lemma stopped_runCallback: "stopped s \<Longrightarrow> stopped (runCallback cb s)"
proof (cases cb)
  case ConnectionWatchdogCallback
  assume "stopped s"
  then show ?thesis
    using ConnectionWatchdogCallback by (simp add: runCallback_def stopped_disconnect_again)
next
  case PingWatchdogCallback
  assume "stopped s"
  moreover have "stopped (sendPing s) = stopped s"
    by (rule stopped_cong) (simp_all add: socketState_def)
  ultimately show ?thesis using PingWatchdogCallback by (simp add: runCallback_def)
next
  case ReconnectCallback
  assume k: "stopped s"
  then have "reconnectCallback s = s\<lparr> reconnectTimer := None \<rparr>"
    by (simp add: reconnectCallback_def stopped_def)
  moreover have "stopped (s\<lparr> reconnectTimer := None \<rparr>) = stopped s"
    by (rule stopped_cong) (simp_all add: socketState_def)
  ultimately show ?thesis using k ReconnectCallback by (simp add: runCallback_def)
next
  case (CommandTimeoutCallback rid)
  assume "stopped s"
  moreover have "stopped (commandTimeout rid s) = stopped s"
    by (rule stopped_cong) (simp_all add: socketState_def)
  ultimately show ?thesis using CommandTimeoutCallback by (simp add: runCallback_def)
qed

lemma stopped_fire: "stopped s \<Longrightarrow> stopped (fire h s)"
proof (cases "timers s h")
  case None
  assume "stopped s"
  then show ?thesis using None by (simp add: fire_def)
next
  case (Some a)
  assume k: "stopped s"
  obtain d cb where a: "a = (d, cb)" by (cases a)
  have "stopped (clearTimeout h s) = stopped s"
    by (rule stopped_cong) (simp_all add: socketState_def)
  with k have "stopped (runCallback cb (clearTimeout h s))"
    by (simp add: stopped_runCallback)
  then show ?thesis using Some a by (simp add: fire_def)
qed

lemma stopped_step: "stopped s \<Longrightarrow> stopped (step P e s)"
proof (cases e)
  case (Connect h)
  assume "stopped s"
  then show ?thesis using Connect by (simp add: step_def stopped_def)
next
  case ConnectInternalSocket
  assume "stopped s"
  then show ?thesis
    using ConnectInternalSocket by (simp add: step_def stopped_def connectInternal_socket_def)
next
  case ConnectInternalThrows
  assume "stopped s"
  then show ?thesis
    using ConnectInternalThrows by (simp add: step_def stopped_def connectInternal_throws_def)
next
  case (SocketOpen i)
  assume "stopped s"
  then show ?thesis using SocketOpen by (simp add: step_def stopped_def)
next
  case (SocketMessage i data)
  assume k: "stopped s"
  have "stopped (on_message P data s) = stopped s"
    by (rule stopped_cong) (simp_all add: socketState_def)
  with k show ?thesis using SocketMessage by (simp add: step_def)
next
  case (SocketError i t)
  assume k: "stopped s"
  then have "stopped (on_error i t (setReadyState i CLOSING s))"
    by (simp add: stopped_def)
  with k show ?thesis using SocketError by (simp add: step_def)
next
  case (SocketClose i)
  assume k: "stopped s"
  have "\<And>j. socketState (on_close (setReadyState i CLOSED s)) j
            = socketState (setReadyState i CLOSED s) j"
    by (simp add: socketState_def)
  with k have "stopped (on_close (setReadyState i CLOSED s))"
    by (simp add: stopped_def)
  with k show ?thesis using SocketClose by (simp add: step_def)
next
  case (SocketPong i)
  assume k: "stopped s"
  have "stopped (on_pong s) = stopped s"
    by (rule stopped_cong) (simp_all add: socketState_def)
  with k show ?thesis using SocketPong by (simp add: step_def)
next
  case (TimerFires h)
  assume "stopped s"
  then show ?thesis using TimerFires by (simp add: step_def stopped_fire)
next
  case SendCommandWait
  assume "stopped s"
  then show ?thesis
    using SendCommandWait by (simp add: step_def sendCommand_wait_def stopped_def)
next
  case (SendCommandSend payload rid t)
  assume k: "stopped s"
  then have "\<not> isConnected s" by (simp add: stopped_def isConnected_def)
  then have "sendCommand_send payload rid t s = Inl ''WebSocket connection not available for command''"
    by (simp add: sendCommand_send_def)
  with k show ?thesis using SendCommandSend by (simp add: step_def)
next
  case Disconnect
  assume "stopped s"
  then show ?thesis using Disconnect by (simp add: step_def stopped_disconnect_again)
qed

lemma stopped_run: "stopped s \<Longrightarrow> stopped (run P evs s)"
  unfolding run_def by (induction evs arbitrary: s) (simp_all add: stopped_step)

lemma stopped_disconnect:
  assumes "connectsAwaiting s = 0"
    and "\<forall>i. socketState s i = Some CONNECTING \<longrightarrow> ws s = Some i"
  shows "stopped (disconnect s)"
  using assms by (auto simp add: stopped_def socketState_disconnect)

section \<open>The connection state\<close>

lemma connectionState_fire:
  "connectionState (fire h s) = connectionState s \<or> connectionState (fire h s) = ''disconnected''"
proof (cases "timers s h")
  case None
  then show ?thesis by (simp add: fire_def)
next
  case (Some a)
  obtain d cb where a: "a = (d, cb)" by (cases a)
  show ?thesis using Some a by (cases cb) (simp_all add: fire_def runCallback_def)
qed

lemma connectionState_step:
  "connectionState (step P e s) = connectionState s
   \<or> connectionState (step P e s) = ''connected''
   \<or> connectionState (step P e s) = ''disconnected''"
proof (cases e)
  case (TimerFires h)
  then show ?thesis using connectionState_fire [of h s] by (auto simp: step_def)
next
  case (SendCommandSend payload rid t)
  then show ?thesis
    by (auto simp: step_def dest: sendCommand_send_fields(1) split: sum.splits)
qed (simp_all add: step_def)

lemma connectionState_run:
  "connectionState s = ''disconnected'' \<or> connectionState s = ''connected'' \<Longrightarrow>
   connectionState (run P evs s) = ''disconnected'' \<or> connectionState (run P evs s) = ''connected''"
  unfolding run_def
proof (induction evs arbitrary: s)
  case Nil
  then show ?case by simp
next
  case (Cons e evs)
  have "connectionState (step P e s) = ''disconnected'' \<or> connectionState (step P e s) = ''connected''"
    using connectionState_step [of P e s] Cons.prems by auto
  then show ?case using Cons.IH [of "step P e s"] by simp
qed

text \<open>
  Claim C9 says that the accessor returns \<open>connecting\<close> between \<^verbatim>\<open>connect()\<close> and the
  socket's \<^verbatim>\<open>open\<close> event. On a new object it returns \<open>disconnected\<close> there, both while
  \<^verbatim>\<open>_connectInternal\<close> waits for the headers and after the socket has been created: no
  statement of the class assigns \<open>connecting\<close>.
\<close>

theorem connecting_state_counterexample:
  "getConnectionState (run nullParser [Connect None] constructor) = ''disconnected''
   \<and> getConnectionState (run nullParser [Connect None] constructor) \<noteq> ''connecting''
   \<and> getConnectionState (run nullParser [Connect None, ConnectInternalSocket] constructor)
       \<noteq> ''connecting''"
  by (simp add: ws_defs)

text \<open>
  Claim C9, amended. From construction on, the accessor returns \<open>disconnected\<close> or
  \<open>connected\<close> and nothing else. \<^verbatim>\<open>connect()\<close> and the creation of the socket leave its
  value as it was, so between \<^verbatim>\<open>connect()\<close> and the \<^verbatim>\<open>open\<close> event it returns what it
  returned before the call; after \<^verbatim>\<open>open\<close> it returns \<open>connected\<close>, after \<^verbatim>\<open>close\<close>
  or \<^verbatim>\<open>disconnect()\<close> it returns \<open>disconnected\<close>.
\<close>

theorem connection_state_accessor:
  "(getConnectionState (run P evs constructor) = ''disconnected''
      \<or> getConnectionState (run P evs constructor) = ''connected'')
   \<and> getConnectionState (step P (Connect h) s) = getConnectionState s
   \<and> getConnectionState (step P ConnectInternalSocket s) = getConnectionState s
   \<and> (socketState s i = Some CONNECTING \<longrightarrow>
        getConnectionState (step P (SocketOpen i) s) = ''connected'')
   \<and> (socketState s i \<noteq> None \<and> socketState s i \<noteq> Some CLOSED \<longrightarrow>
        getConnectionState (step P (SocketClose i) s) = ''disconnected'')
   \<and> getConnectionState (step P Disconnect s) = ''disconnected''"
proof -
  have always: "getConnectionState (run P evs constructor) = ''disconnected''
      \<or> getConnectionState (run P evs constructor) = ''connected''"
    unfolding getConnectionState_def
    by (rule connectionState_run) (simp add: constructor_def)
  have rest: "getConnectionState (step P (Connect h) s) = getConnectionState s"
    "getConnectionState (step P ConnectInternalSocket s) = getConnectionState s"
    "socketState s i = Some CONNECTING \<longrightarrow>
        getConnectionState (step P (SocketOpen i) s) = ''connected''"
    "socketState s i \<noteq> None \<and> socketState s i \<noteq> Some CLOSED \<longrightarrow>
        getConnectionState (step P (SocketClose i) s) = ''disconnected''"
    "getConnectionState (step P Disconnect s) = ''disconnected''"
    by (simp_all add: getConnectionState_def step_def)
  from always rest show ?thesis by blast
qed

theorem connection_state_accessor_witness:
  "socketState (run nullParser [Connect None, ConnectInternalSocket] constructor) 0 = Some CONNECTING
   \<and> getConnectionState (run nullParser [Connect None, ConnectInternalSocket] constructor)
       = ''disconnected''
   \<and> getConnectionState (step nullParser (SocketOpen 0)
        (run nullParser [Connect None, ConnectInternalSocket] constructor)) = ''connected''
   \<and> socketState connectedState 0 = Some OPEN
   \<and> getConnectionState (step nullParser (SocketClose 0) connectedState) = ''disconnected''
   \<and> getConnectionState (step nullParser Disconnect connectedState) = ''disconnected''"
  using connection_state_accessor
    [of nullParser "[Connect None, ConnectInternalSocket]" None
        "run nullParser [Connect None, ConnectInternalSocket] constructor" 0]
    connection_state_accessor
    [of nullParser "[Connect None, ConnectInternalSocket]" None connectedState 0]
  by (simp add: ws_defs connectedState_def)

section \<open>Deliberate shutdown\<close>

text \<open>
  Claim C10 says that after \<^verbatim>\<open>disconnect()\<close> the object never reaches the connected state
  again. A \<^verbatim>\<open>connect()\<close> that is suspended in \<^verbatim>\<open>_connectInternal\<close> when
  \<^verbatim>\<open>disconnect()\<close> runs still creates its socket afterwards, and the socket opens.
\<close>

theorem connected_after_disconnect_counterexample:
  "isStopping (run nullParser [Connect None, Disconnect] constructor)
   \<and> getConnectionState
        (run nullParser [Connect None, Disconnect, ConnectInternalSocket, SocketOpen 0] constructor)
       = ''connected''
   \<and> isConnected
        (run nullParser [Connect None, Disconnect, ConnectInternalSocket, SocketOpen 0] constructor)"
  by (simp add: ws_defs)

text \<open>
  Claim C10, amended. After \<^verbatim>\<open>disconnect()\<close> the shutdown flag stays set whatever happens
  next, and every later \<^verbatim>\<open>connect()\<close> returns the state unchanged. If no connection
  attempt was in flight when \<^verbatim>\<open>disconnect()\<close> ran (no suspended \<^verbatim>\<open>_connectInternal\<close>,
  no connecting socket other than the attached one), the object never reaches the connected
  state again.
\<close>

theorem disconnect_is_permanent:
  "isStopping (run P evs (disconnect s))
   \<and> connect h (run P evs (disconnect s)) = run P evs (disconnect s)
   \<and> (connectsAwaiting s = 0 \<and> (\<forall>i. socketState s i = Some CONNECTING \<longrightarrow> ws s = Some i) \<longrightarrow>
        getConnectionState (run P evs (disconnect s)) = ''disconnected''
        \<and> \<not> isConnected (run P evs (disconnect s)))"
proof -
  have flag: "isStopping (run P evs (disconnect s))"
    by (rule run_stopping) simp
  then have noop: "connect h (run P evs (disconnect s)) = run P evs (disconnect s)"
    by simp
  have never: "connectsAwaiting s = 0 \<and> (\<forall>i. socketState s i = Some CONNECTING \<longrightarrow> ws s = Some i) \<longrightarrow>
        getConnectionState (run P evs (disconnect s)) = ''disconnected''
        \<and> \<not> isConnected (run P evs (disconnect s))"
  proof
    assume k: "connectsAwaiting s = 0 \<and> (\<forall>i. socketState s i = Some CONNECTING \<longrightarrow> ws s = Some i)"
    then have "stopped (disconnect s)" by (simp add: stopped_disconnect)
    then have "stopped (run P evs (disconnect s))" by (rule stopped_run)
    then show "getConnectionState (run P evs (disconnect s)) = ''disconnected''
        \<and> \<not> isConnected (run P evs (disconnect s))"
      by (simp add: stopped_def getConnectionState_def isConnected_def)
  qed
  from flag noop never show ?thesis by blast
qed

theorem disconnect_is_permanent_witness:
  "connectsAwaiting connectedState = 0
   \<and> getConnectionState connectedState = ''connected''
   \<and> isStopping (run nullParser [SocketClose 0, Connect None, ConnectInternalSocket, SendCommandWait]
        (disconnect connectedState))
   \<and> getConnectionState (run nullParser [SocketClose 0, Connect None, ConnectInternalSocket, SendCommandWait]
        (disconnect connectedState)) = ''disconnected''
   \<and> \<not> isConnected (run nullParser [SocketClose 0, Connect None, ConnectInternalSocket, SendCommandWait]
        (disconnect connectedState))"
  using disconnect_is_permanent
    [of nullParser "[SocketClose 0, Connect None, ConnectInternalSocket, SendCommandWait]"
        connectedState None]
  by (simp add: ws_defs connectedState_def)

section \<open>The connection watchdog\<close>

lemma stopped_watchdogExpired: "stopped watchdogExpired"
  by (simp add: ws_defs stopped_def watchdogExpired_def connectedState_def Let_def)

text \<open>
  Claim C2 on the code. \<^verbatim>\<open>_handleConnectionTimeout\<close> calls \<^verbatim>\<open>disconnect()\<close>, which sets
  the shutdown flag, before \<^verbatim>\<open>_scheduleReconnect()\<close>, whose guard then returns at once:
  handling the watchdog expiry is the same as \<^verbatim>\<open>disconnect()\<close>. On a connected object
  whose connection watchdog fires, no reconnect timer is armed, no timer at all is left,
  and whatever happens later the object stays disconnected.
\<close>

theorem watchdog_expiry_schedules_no_reconnect:
  "handleConnectionTimeout s = disconnect s
   \<and> isStopping (handleConnectionTimeout s)
   \<and> reconnectTimer (handleConnectionTimeout s) = None
   \<and> getConnectionState connectedState = ''connected''
   \<and> timers connectedState 0 = Some (30000, ConnectionWatchdogCallback)
   \<and> isStopping watchdogExpired
   \<and> scheduledReconnectDelay watchdogExpired = None
   \<and> timers watchdogExpired = Map.empty
   \<and> connectsAwaiting watchdogExpired = 0
   \<and> getConnectionState (run P evs watchdogExpired) = ''disconnected''
   \<and> \<not> isConnected (run P evs watchdogExpired)"
proof -
  have general: "handleConnectionTimeout s = disconnect s
     \<and> isStopping (handleConnectionTimeout s)
     \<and> reconnectTimer (handleConnectionTimeout s) = None"
    by simp
  have expired: "getConnectionState connectedState = ''connected''
     \<and> timers connectedState 0 = Some (30000, ConnectionWatchdogCallback)
     \<and> isStopping watchdogExpired
     \<and> scheduledReconnectDelay watchdogExpired = None
     \<and> timers watchdogExpired = Map.empty
     \<and> connectsAwaiting watchdogExpired = 0"
    by (simp add: ws_defs watchdogExpired_def connectedState_def Let_def)
  have "stopped (run P evs watchdogExpired)"
    by (rule stopped_run) (rule stopped_watchdogExpired)
  then have later: "getConnectionState (run P evs watchdogExpired) = ''disconnected''
     \<and> \<not> isConnected (run P evs watchdogExpired)"
    by (simp add: stopped_def getConnectionState_def isConnected_def)
  from general expired later show ?thesis by blast
qed

section \<open>Command tracker: one settlement per request identifier\<close>

lemma shrinks_trans: "shrinks a b \<Longrightarrow> shrinks b c \<Longrightarrow> shrinks a c"
  by (simp add: shrinks_def)

lemma shrinks_timers_eq: "timers s' = timers s \<Longrightarrow> shrinks s s'"
  by (simp add: shrinks_def)

lemma tcalm_refl [simp]: "tcalm s s"
  by (simp add: tcalm_def)

lemma tcalm_trans: "tcalm a b \<Longrightarrow> tcalm b c \<Longrightarrow> tcalm a c"
  by (auto simp: tcalm_def intro: shrinks_trans)

lemma tcalm_quiet: "tcalm s s' \<Longrightarrow> quiet R s s'"
  by (auto simp: tcalm_def quiet_def settlementsFor_def armedFor_def shrinks_def)

lemma quiet_fresh: "quiet R s s' \<Longrightarrow> fresh R s \<Longrightarrow> fresh R s'"
  by (auto simp: quiet_def fresh_def)

lemma quiet_live: "quiet R s s' \<Longrightarrow> live R s \<Longrightarrow> live R s'"
  by (auto simp: quiet_def live_def)

lemma quiet_settled: "quiet R s s' \<Longrightarrow> settled R s \<Longrightarrow> settled R s'"
  by (auto simp: quiet_def settled_def)

lemma shrinks_connectInternal_throws [simp]:
  "shrinks s s' \<Longrightarrow> shrinks s (connectInternal_throws s')"
  by (simp add: connectInternal_throws_def)

lemma shrinks_on_open [simp]: "shrinks s s' \<Longrightarrow> shrinks s (on_open i s')"
  by (simp add: on_open_def Let_def)

lemma shrinks_on_error [simp]: "shrinks s s' \<Longrightarrow> shrinks s (on_error i t s')"
  by (simp add: on_error_def Let_def split: option.splits)

lemma shrinks_on_close [simp]: "shrinks s s' \<Longrightarrow> shrinks s (on_close s')"
  by (simp add: on_close_def Let_def)

lemma shrinks_disconnect [simp]: "shrinks s s' \<Longrightarrow> shrinks s (disconnect s')"
  by (simp add: disconnect_def Let_def split: option.splits)

lemma shrinks_same_timers: "shrinks s s' \<Longrightarrow> timers s'' = timers s' \<Longrightarrow> shrinks s s''"
  by (simp add: shrinks_def)

lemma tcalm_sendMessage: "tcalm x (sendMessage f x)"
  by (simp add: tcalm_def)

lemma tcalm_fold_processVepUpdate: "tcalm s (fold (\<lambda>(vin, u). processVepUpdate P vin u) us s)"
  by (simp add: tcalm_def shrinks_timers_eq)

lemma handleCommandStatusUpdates_None [simp]: "handleCommandStatusUpdates None s = s"
  by (simp add: handleCommandStatusUpdates_def)

lemma dispatch_tcalm:
  assumes "dispatch P m s = Inr (ack, s1) \<or> dispatch P m s = Inl (e, s1)"
  shows "tcalm s s1 \<or> s1 = handleCommandStatusUpdates (apptwinCommandStatusUpdatesByVin m) s"
  using assms
  by (auto simp: dispatch_def Let_def tcalm_fold_processVepUpdate split: if_splits option.splits)

lemma processMessage_tcalm:
  assumes "processMessage P data s = Inr s1"
  shows "\<exists>su. tcalm (handleCommandStatusUpdates su s) s1"
proof -
  have "s1 = s \<or> (\<exists>m ack s0 e. (dispatch P m s = Inr (ack, s0) \<or> dispatch P m s = Inl (e, s0))
            \<and> (s1 = s0 \<or> (\<exists>f. s1 = sendMessage f s0)))"
    using assms
    by (auto simp: processMessage_def processMessage_try_def
        split: sum.splits option.splits prod.splits)
  then show ?thesis
  proof
    assume "s1 = s"
    then have "tcalm (handleCommandStatusUpdates None s) s1" by simp
    then show ?thesis by blast
  next
    assume "\<exists>m ack s0 e. (dispatch P m s = Inr (ack, s0) \<or> dispatch P m s = Inl (e, s0))
            \<and> (s1 = s0 \<or> (\<exists>f. s1 = sendMessage f s0))"
    then obtain m ack s0 e where
      d: "dispatch P m s = Inr (ack, s0) \<or> dispatch P m s = Inl (e, s0)"
      and r: "s1 = s0 \<or> (\<exists>f. s1 = sendMessage f s0)"
      by blast
    from r have c: "tcalm s0 s1" by (auto simp: tcalm_sendMessage)
    from dispatch_tcalm [OF d] show ?thesis
    proof
      assume "tcalm s s0"
      with c have "tcalm (handleCommandStatusUpdates None s) s1"
        by (auto intro: tcalm_trans)
      then show ?thesis by blast
    next
      assume "s0 = handleCommandStatusUpdates (apptwinCommandStatusUpdatesByVin m) s"
      with c show ?thesis by blast
    qed
  qed
qed

lemma on_message_preserves:
  assumes quietQ: "\<And>s s'. quiet R s s' \<Longrightarrow> Q s \<Longrightarrow> Q s'"
    and statusQ: "\<And>st s. Q s \<Longrightarrow> Q (handleStatus st s)"
    and start: "Q s"
  shows "Q (on_message P data s)"
proof -
  let ?s0 = "resetPingWatchdog (resetConnectionWatchdog s)"
  have "tcalm s ?s0" by (simp add: tcalm_def)
  then have q0: "Q ?s0" using quietQ start tcalm_quiet by blast
  obtain s1 where k: "processMessage P data ?s0 = Inr s1"
    using processMessage_returns by blast
  then have e: "on_message P data s = s1" by (simp add: on_message_def)
  from processMessage_tcalm [OF k] obtain su where
    c: "tcalm (handleCommandStatusUpdates su ?s0) s1" by blast
  have folded: "\<And>xs x. Q x \<Longrightarrow> Q (fold handleStatus xs x)"
  proof -
    fix xs x show "Q x \<Longrightarrow> Q (fold handleStatus xs x)"
      by (induction xs arbitrary: x) (simp_all add: statusQ)
  qed
  have "Q (handleCommandStatusUpdates su ?s0)"
    using q0 by (simp add: handleCommandStatusUpdates_fold folded)
  then show ?thesis unfolding e using quietQ c tcalm_quiet by blast
qed

lemma tcalm_runCallback_other:
  assumes "\<forall>rid. cb \<noteq> CommandTimeoutCallback rid"
  shows "tcalm s (runCallback cb (clearTimeout h s))"
  using assms
  by (cases cb) (simp_all add: runCallback_def tcalm_def shrinks_same_timers [where s' = "clearTimeout h s"])

lemma fire_preserves:
  assumes quietQ: "\<And>s s'. quiet R s s' \<Longrightarrow> Q s \<Longrightarrow> Q s'"
    and timeoutQ: "\<And>h d rid s. Q s \<Longrightarrow> timers s h = Some (d, CommandTimeoutCallback rid) \<Longrightarrow>
                     Q (commandTimeout rid (clearTimeout h s))"
    and start: "Q s"
  shows "Q (fire h s)"
proof (cases "timers s h")
  case None
  then show ?thesis using start by (simp add: fire_def)
next
  case (Some a)
  obtain d cb where a: "a = (d, cb)" by (cases a)
  show ?thesis
  proof (cases "\<exists>rid. cb = CommandTimeoutCallback rid")
    case True
    then obtain rid where cb: "cb = CommandTimeoutCallback rid" by blast
    with Some a start timeoutQ [of s h d rid] show ?thesis
      by (simp add: fire_def runCallback_def)
  next
    case False
    then have "tcalm s (runCallback cb (clearTimeout h s))"
      by (simp add: tcalm_runCallback_other)
    then have "Q (runCallback cb (clearTimeout h s))"
      using quietQ start tcalm_quiet by blast
    then show ?thesis using Some a by (simp add: fire_def)
  qed
qed

lemma step_preserves_gen:
  assumes quietQ: "\<And>s s'. quiet R s s' \<Longrightarrow> Q s \<Longrightarrow> Q s'"
    and messageQ: "\<And>i data. e = SocketMessage i data \<Longrightarrow> Q (on_message P data s)"
    and timeoutQ: "\<And>h d rid s. Q s \<Longrightarrow> timers s h = Some (d, CommandTimeoutCallback rid) \<Longrightarrow>
                     Q (commandTimeout rid (clearTimeout h s))"
    and sendQ: "\<And>payload rid t s s1. rid \<noteq> R \<Longrightarrow> Q s \<Longrightarrow>
                     sendCommand_send payload rid t s = Inr s1 \<Longrightarrow> Q s1"
    and other: "\<not> registers R e"
    and start: "Q s"
  shows "Q (step P e s)"
proof -
  have calm: "\<And>s'. tcalm s s' \<Longrightarrow> Q s'"
    using quietQ start tcalm_quiet by blast
  show ?thesis
  proof (cases e)
    case (Connect h)
    then show ?thesis by (simp add: step_def calm tcalm_def shrinks_timers_eq)
  next
    case ConnectInternalSocket
    then show ?thesis by (simp add: step_def calm tcalm_def shrinks_timers_eq)
  next
    case ConnectInternalThrows
    then show ?thesis by (simp add: step_def calm tcalm_def)
  next
    case (SocketOpen i)
    then show ?thesis using start by (simp add: step_def calm tcalm_def)
  next
    case (SocketMessage i data)
    then show ?thesis using start messageQ [of i data] by (simp add: step_def)
  next
    case (SocketError i t)
    then show ?thesis using start by (simp add: step_def calm tcalm_def)
  next
    case (SocketClose i)
    then show ?thesis using start by (simp add: step_def calm tcalm_def)
  next
    case (SocketPong i)
    then show ?thesis using start by (simp add: step_def calm tcalm_def)
  next
    case (TimerFires h)
    then show ?thesis
      using fire_preserves [of R Q s h, OF quietQ timeoutQ start] by (simp add: step_def)
  next
    case SendCommandWait
    then show ?thesis by (simp add: step_def calm tcalm_def shrinks_timers_eq)
  next
    case (SendCommandSend payload rid t)
    with other have "rid \<noteq> R" by simp
    then show ?thesis
      using SendCommandSend start sendQ [of rid s payload t]
      by (simp add: step_def split: sum.splits)
  next
    case Disconnect
    then show ?thesis by (simp add: step_def calm tcalm_def)
  qed
qed

lemma step_preserves:
  assumes quietQ: "\<And>s s'. quiet R s s' \<Longrightarrow> Q s \<Longrightarrow> Q s'"
    and statusQ: "\<And>st s. Q s \<Longrightarrow> Q (handleStatus st s)"
    and timeoutQ: "\<And>h d rid s. Q s \<Longrightarrow> timers s h = Some (d, CommandTimeoutCallback rid) \<Longrightarrow>
                     Q (commandTimeout rid (clearTimeout h s))"
    and sendQ: "\<And>payload rid t s s1. rid \<noteq> R \<Longrightarrow> Q s \<Longrightarrow>
                     sendCommand_send payload rid t s = Inr s1 \<Longrightarrow> Q s1"
    and other: "\<not> registers R e"
    and start: "Q s"
  shows "Q (step P e s)"
proof (rule step_preserves_gen [where Q = Q and R = R and e = e])
  fix a b
  assume "quiet R a b" and "Q a"
  then show "Q b" by (rule quietQ)
next
  fix i data
  show "Q (on_message P data s)"
    using quietQ statusQ start by (rule on_message_preserves)
next
  fix h d rid a
  assume "Q a" and "timers a h = Some (d, CommandTimeoutCallback rid)"
  then show "Q (commandTimeout rid (clearTimeout h a))" by (rule timeoutQ)
next
  fix payload rid t a s1
  assume "rid \<noteq> R" and "Q a" and "sendCommand_send payload rid t a = Inr s1"
  then show "Q s1" by (rule sendQ)
next
  show "\<not> registers R e" by (rule other)
next
  show "Q s" by (rule start)
qed

lemma shrinks_handleStatus [simp]: "shrinks s s' \<Longrightarrow> shrinks s (handleStatus st s')"
  by (simp add: handleStatus_def Let_def split: option.splits)

lemma handleStatus_quiet_other: "requestId st \<noteq> R \<Longrightarrow> quiet R s (handleStatus st s)"
proof -
  assume k: "requestId st \<noteq> R"
  have "shrinks s (handleStatus st s)" by simp
  then have "armedFor R (handleStatus st s) \<subseteq> armedFor R s"
    by (auto simp: shrinks_def armedFor_def)
  with handleStatus_other [OF k, of s] show ?thesis by (simp add: quiet_def)
qed

lemma fresh_handleStatus: "fresh R s \<Longrightarrow> fresh R (handleStatus st s)"
proof (cases "requestId st = R")
  case True
  assume "fresh R s"
  then show ?thesis using True by (simp add: fresh_def handleStatus_absent)
next
  case False
  assume "fresh R s"
  then show ?thesis using handleStatus_quiet_other [OF False] quiet_fresh by blast
qed

lemma armedFor_clearTimeout [simp]: "armedFor R (clearTimeout h s) = armedFor R s - {h}"
  by (auto simp: armedFor_def clearTimeout_def)

lemma live_handleStatus_same:
  assumes "live R s" and "requestId st = R" and "pendingCommands s R = Some e"
  shows "live R (handleStatus st s) \<or> settled R (handleStatus st s)"
proof -
  from assms(1,3) have none: "settlementsFor R s = []" and armed: "armedFor R s \<subseteq> {timeout e}"
    by (auto simp: live_def)
  let ?c = "clearTimeout (timeout e) s"
  have armed0: "armedFor R ?c = {}" using armed by auto
  show ?thesis
  proof (cases "terminalStatus st")
    case True
    have p: "pendingCommands (handleStatus st s) R = None"
      and q: "settlements (handleStatus st s) = settlements s @ [settleOutcome st]"
      using handleStatus_terminal [of s st e] assms(2,3) True by simp_all
    have "settlementId (settleOutcome st) = R"
      using assms(2) by (simp add: settleOutcome_def)
    with q none have one: "length (settlementsFor R (handleStatus st s)) = 1"
      by (simp add: settlementsFor_def)
    have "timers (handleStatus st s) = timers ?c"
      using assms(2,3) by (simp add: handleStatus_def Let_def)
    then have "armedFor R (handleStatus st s) = {}"
      using armed0 by (simp add: armedFor_def)
    with p one show ?thesis by (simp add: settled_def)
  next
    case False
    have keep: "pendingCommands (handleStatus st s) = pendingCommands s"
      "settlements (handleStatus st s) = settlements s"
      using handleStatus_intermediate [of s st e] assms(2,3) False by simp_all
    have "timers (handleStatus st s) = timers ?c"
      using assms(2,3) by (simp add: handleStatus_def Let_def)
    then have "armedFor R (handleStatus st s) = {}"
      using armed0 by (simp add: armedFor_def)
    with keep none assms(3) show ?thesis by (auto simp: live_def settlementsFor_def)
  qed
qed

lemma good_handleStatus:
  assumes "live R s \<or> settled R s"
  shows "live R (handleStatus st s) \<or> settled R (handleStatus st s)"
proof (cases "requestId st = R")
  case False
  from handleStatus_quiet_other [OF False] assms show ?thesis
    using quiet_live quiet_settled by blast
next
  case True
  show ?thesis
  proof (cases "pendingCommands s R")
    case None
    then show ?thesis using True assms by (simp add: handleStatus_absent)
  next
    case (Some e)
    with assms have "live R s" by (auto simp: settled_def)
    then show ?thesis using live_handleStatus_same True Some by blast
  qed
qed

lemma commandTimeout_quiet_other:
  "rid \<noteq> R \<Longrightarrow> quiet R s (commandTimeout rid (clearTimeout h s))"
  by (auto simp: quiet_def settlementsFor_def commandTimeout_def armedFor_def clearTimeout_def)

lemma fresh_timeout:
  assumes "fresh R s" and "timers s h = Some (d, CommandTimeoutCallback rid)"
  shows "fresh R (commandTimeout rid (clearTimeout h s))"
proof (cases "rid = R")
  case True
  with assms(2) have "h \<in> armedFor R s" by (auto simp: armedFor_def)
  with assms(1) show ?thesis by (simp add: fresh_def)
next
  case False
  then show ?thesis using commandTimeout_quiet_other assms(1) quiet_fresh by blast
qed

lemma good_timeout:
  assumes "live R s \<or> settled R s" and "timers s h = Some (d, CommandTimeoutCallback rid)"
  shows "live R (commandTimeout rid (clearTimeout h s))
       \<or> settled R (commandTimeout rid (clearTimeout h s))"
proof (cases "rid = R")
  case False
  then show ?thesis
    using commandTimeout_quiet_other [OF False, of s h] assms(1) quiet_live quiet_settled by blast
next
  case True
  with assms(2) have h: "h \<in> armedFor R s" by (auto simp: armedFor_def)
  with assms(1) have l: "live R s" by (auto simp: settled_def)
  then have none: "settlementsFor R s = []" by (simp add: live_def)
  from l h have "armedFor R s \<subseteq> {h}" by (auto simp: live_def)
  then have "armedFor R (clearTimeout h s) = {}" by auto
  then have a: "armedFor R (commandTimeout rid (clearTimeout h s)) = {}"
    by (simp add: armedFor_def)
  have p: "pendingCommands (commandTimeout rid (clearTimeout h s)) R = None"
    using True by (simp add: commandTimeout_def)
  have "length (settlementsFor R (commandTimeout rid (clearTimeout h s))) = 1"
    using True none by (simp add: commandTimeout_def settlementsFor_def clearTimeout_def)
  with a p show ?thesis by (simp add: settled_def)
qed

lemma sendCommand_send_quiet_other:
  assumes "rid \<noteq> R" and "sendCommand_send payload rid t s = Inr s1"
  shows "quiet R s s1"
  using assms
  by (auto simp: sendCommand_send_def Let_def quiet_def settlementsFor_def armedFor_def
      sendMessage_def setTimeout_def split: if_splits option.splits)

lemma register_live:
  assumes "fresh R s"
  shows "live R (step P (SendCommandSend payload R t) s)"
proof (cases "sendCommand_send payload R t s")
  case (Inl a)
  then show ?thesis using assms by (simp add: step_def fresh_def live_def)
next
  case (Inr s1)
  from assms have none: "settlementsFor R s = []" and armed: "armedFor R s = {}"
    by (simp_all add: fresh_def)
  from Inr have s1: "settlements s1 = settlements s"
    "pendingCommands s1 R = Some \<lparr> timeout = nextHandle s \<rparr>"
    "timers s1 = (timers s)(nextHandle s \<mapsto> (t, CommandTimeoutCallback R))"
    by (auto simp: sendCommand_send_def Let_def sendMessage_def setTimeout_def
        split: if_splits option.splits)
  from s1(3) armed have "armedFor R s1 \<subseteq> {nextHandle s}"
    by (auto simp: armedFor_def split: if_splits)
  with s1(1,2) none have "live R s1"
    by (auto simp: live_def settlementsFor_def)
  then show ?thesis using Inr by (simp add: step_def)
qed

lemma fresh_step:
  assumes "\<not> registers R e" and "fresh R s"
  shows "fresh R (step P e s)"
proof (rule step_preserves [where Q = "fresh R" and R = R and e = e])
  fix a b
  assume "quiet R a b" and "fresh R a"
  then show "fresh R b" by (rule quiet_fresh)
next
  fix st a
  assume "fresh R a"
  then show "fresh R (handleStatus st a)" by (rule fresh_handleStatus)
next
  fix h d rid a
  assume "fresh R a" and "timers a h = Some (d, CommandTimeoutCallback rid)"
  then show "fresh R (commandTimeout rid (clearTimeout h a))" by (rule fresh_timeout)
next
  fix payload rid t a s1
  assume "rid \<noteq> R" and g: "fresh R a" and "sendCommand_send payload rid t a = Inr s1"
  then have "quiet R a s1" by (simp add: sendCommand_send_quiet_other)
  with g show "fresh R s1" using quiet_fresh by blast
next
  show "\<not> registers R e" by (rule assms(1))
next
  show "fresh R s" by (rule assms(2))
qed

lemma good_step:
  assumes "\<not> registers R e" and "live R s \<or> settled R s"
  shows "live R (step P e s) \<or> settled R (step P e s)"
proof (rule step_preserves [where Q = "\<lambda>s. live R s \<or> settled R s" and R = R and e = e])
  fix a b
  assume "quiet R a b" and "live R a \<or> settled R a"
  then show "live R b \<or> settled R b" using quiet_live quiet_settled by blast
next
  fix st a
  assume "live R a \<or> settled R a"
  then show "live R (handleStatus st a) \<or> settled R (handleStatus st a)"
    by (rule good_handleStatus)
next
  fix h d rid a
  assume "live R a \<or> settled R a" and "timers a h = Some (d, CommandTimeoutCallback rid)"
  then show "live R (commandTimeout rid (clearTimeout h a))
       \<or> settled R (commandTimeout rid (clearTimeout h a))"
    by (rule good_timeout)
next
  fix payload rid t a s1
  assume "rid \<noteq> R" and g: "live R a \<or> settled R a"
    and "sendCommand_send payload rid t a = Inr s1"
  then have "quiet R a s1" by (simp add: sendCommand_send_quiet_other)
  with g show "live R s1 \<or> settled R s1" using quiet_live quiet_settled by blast
next
  show "\<not> registers R e" by (rule assms(1))
next
  show "live R s \<or> settled R s" by (rule assms(2))
qed

lemma good_run:
  "\<forall>e \<in> set evs. \<not> registers R e \<Longrightarrow> live R s \<or> settled R s \<Longrightarrow>
     live R (run P evs s) \<or> settled R (run P evs s)"
  unfolding run_def
proof (induction evs arbitrary: s)
  case Nil
  then show ?case by simp
next
  case (Cons e evs)
  then have "live R (step P e s) \<or> settled R (step P e s)"
    by (simp add: good_step)
  with Cons show ?case by simp
qed

lemma fresh_live: "fresh R s \<Longrightarrow> live R s"
  by (auto simp: fresh_def live_def)

lemma registered_once_run:
  "length (filter (registers R) evs) \<le> 1 \<Longrightarrow> fresh R s \<Longrightarrow>
     live R (run P evs s) \<or> settled R (run P evs s)"
proof (induction evs arbitrary: s)
  case Nil
  then show ?case by (simp add: run_def fresh_live)
next
  case (Cons e evs)
  show ?case
  proof (cases "registers R e")
    case True
    then obtain payload t where e: "e = SendCommandSend payload R t"
      by (cases e) auto
    from True Cons.prems(1) have "filter (registers R) evs = []" by simp
    then have no: "\<forall>x \<in> set evs. \<not> registers R x"
      by (simp add: filter_empty_conv)
    have "live R (step P e s)" unfolding e using Cons.prems(2) by (rule register_live)
    then have "live R (run P evs (step P e s)) \<or> settled R (run P evs (step P e s))"
      using good_run [OF no] by blast
    then show ?thesis by (simp add: run_def)
  next
    case False
    with Cons.prems have "length (filter (registers R) evs) \<le> 1" "fresh R (step P e s)"
      by (simp_all add: fresh_step)
    then have "live R (run P evs (step P e s)) \<or> settled R (run P evs (step P e s))"
      by (rule Cons.IH)
    then show ?thesis by (simp add: run_def)
  qed
qed

lemma fresh_constructor: "fresh R constructor"
  by (simp add: fresh_def constructor_def settlementsFor_def armedFor_def)

text \<open>
  Claim C3. For a request identifier \<open>R\<close> that is handed to \<^verbatim>\<open>sendCommand\<close> at most once
  (request identifiers are unique per command), at most one settlement of \<open>R\<close> (success
  callback, failure callback or timeout rejection) is ever invoked, whatever the events.
  Once \<open>R\<close> is settled its entry is gone and no timeout is armed for it, so every later
  status entry for \<open>R\<close> is dropped. Settling by a terminal status disarms the timeout and
  removes the entry; the timeout firing removes the entry.
\<close>

theorem settled_at_most_once:
  assumes "length (filter (registers R) evs) \<le> 1"
  shows "length (settlementsFor R (run P evs constructor)) \<le> 1
    \<and> (settlementsFor R (run P evs constructor) \<noteq> [] \<longrightarrow>
         pendingCommands (run P evs constructor) R = None
         \<and> armedFor R (run P evs constructor) = {}
         \<and> (\<forall>status. requestId status = R \<longrightarrow>
               handleStatus status (run P evs constructor) = run P evs constructor))
    \<and> (pendingCommands s R = Some e \<and> requestId st = R \<and> terminalStatus st \<longrightarrow>
         timers (handleStatus st s) (timeout e) = None
         \<and> pendingCommands (handleStatus st s) R = None)
    \<and> (timers s h = Some (d, CommandTimeoutCallback R) \<longrightarrow>
         timers (fire h s) h = None \<and> pendingCommands (fire h s) R = None)"
proof -
  let ?s = "run P evs constructor"
  have phase: "live R ?s \<or> settled R ?s"
    using assms fresh_constructor by (rule registered_once_run)
  then have once: "length (settlementsFor R ?s) \<le> 1"
    by (auto simp: live_def settled_def)
  have after: "settlementsFor R ?s \<noteq> [] \<longrightarrow>
         pendingCommands ?s R = None \<and> armedFor R ?s = {}
         \<and> (\<forall>status. requestId status = R \<longrightarrow> handleStatus status ?s = ?s)"
  proof
    assume "settlementsFor R ?s \<noteq> []"
    with phase have "settled R ?s" by (auto simp: live_def)
    then show "pendingCommands ?s R = None \<and> armedFor R ?s = {}
         \<and> (\<forall>status. requestId status = R \<longrightarrow> handleStatus status ?s = ?s)"
      by (simp add: settled_def handleStatus_absent)
  qed
  have settle: "pendingCommands s R = Some e \<and> requestId st = R \<and> terminalStatus st \<longrightarrow>
         timers (handleStatus st s) (timeout e) = None
         \<and> pendingCommands (handleStatus st s) R = None"
    by (auto simp: handleStatus_def Let_def terminalStatus_def clearTimeout_def)
  have expire: "timers s h = Some (d, CommandTimeoutCallback R) \<longrightarrow>
         timers (fire h s) h = None \<and> pendingCommands (fire h s) R = None"
    by (simp add: fire_def runCallback_def commandTimeout_def clearTimeout_def)
  from once after settle expire show ?thesis by blast
qed

theorem settled_at_most_once_witness:
  "length (filter (registers ''abc'') abcTrace) = 1
   \<and> settlementsFor ''abc'' (run (constParser (statusFrame ''abc'' 5 None 7)) abcTrace constructor)
       = [Resolved ''abc'' ''FINISHED'']
   \<and> pendingCommands (run (constParser (statusFrame ''abc'' 5 None 7)) abcTrace constructor) ''abc''
       = None
   \<and> armedFor ''abc'' (run (constParser (statusFrame ''abc'' 5 None 7)) abcTrace constructor) = {}
   \<and> pendingCommands abcPending ''abc'' = Some \<lparr> timeout = 2 \<rparr>
   \<and> timers (handleStatus \<lparr> requestId = ''abc'', state = 5, errors = None \<rparr> abcPending) 2 = None
   \<and> timers abcPending 2 = Some (30000, CommandTimeoutCallback ''abc'')
   \<and> pendingCommands (fire 2 abcPending) ''abc'' = None"
  using settled_at_most_once
    [of "''abc''" abcTrace "constParser (statusFrame ''abc'' 5 None 7)" abcPending
        "\<lparr> timeout = 2 \<rparr>" "\<lparr> requestId = ''abc'', state = 5, errors = None \<rparr>" 2 30000]
  by (simp add: ws_defs fixture_defs abcTrace_def Let_def)

section \<open>Command timeouts\<close>

lemma quiet_leaked: "quiet R s s' \<Longrightarrow> leaked R s \<Longrightarrow> leaked R s'"
  by (auto simp: quiet_def leaked_def)

lemma leaked_timeout:
  assumes "leaked R s" and "timers s h = Some (d, CommandTimeoutCallback rid)"
  shows "leaked R (commandTimeout rid (clearTimeout h s))"
proof (cases "rid = R")
  case True
  with assms(2) have "h \<in> armedFor R s" by (auto simp: armedFor_def)
  with assms(1) show ?thesis by (simp add: leaked_def)
next
  case False
  then show ?thesis using commandTimeout_quiet_other assms(1) quiet_leaked by blast
qed

lemma leaked_step:
  assumes "silent R e" and "leaked R s"
  shows "leaked R (step P e s)"
proof (rule step_preserves_gen [where Q = "leaked R" and R = R and e = e])
  fix a b
  assume "quiet R a b" and "leaked R a"
  then show "leaked R b" by (rule quiet_leaked)
next
  fix i data
  assume "e = SocketMessage i data"
  with assms(1) show "leaked R (on_message P data s)" by simp
next
  fix h d rid a
  assume "leaked R a" and "timers a h = Some (d, CommandTimeoutCallback rid)"
  then show "leaked R (commandTimeout rid (clearTimeout h a))" by (rule leaked_timeout)
next
  fix payload rid t a s1
  assume "rid \<noteq> R" and g: "leaked R a" and "sendCommand_send payload rid t a = Inr s1"
  then have "quiet R a s1" by (simp add: sendCommand_send_quiet_other)
  with g show "leaked R s1" using quiet_leaked by blast
next
  show "\<not> registers R e" using assms(1) by (cases e) auto
next
  show "leaked R s" by (rule assms(2))
qed

lemma leaked_run: "\<forall>e \<in> set evs. silent R e \<Longrightarrow> leaked R s \<Longrightarrow> leaked R (run P evs s)"
  unfolding run_def by (induction evs arbitrary: s) (simp_all add: leaked_step)

lemma leaked_abcInitiated: "leaked ''abc'' abcInitiated"
  by (simp add: ws_defs fixture_defs abcInitiated_def leaked_def armedFor_def Let_def)

text \<open>
  Claim C1 on the code. A registered command whose timeout fires is removed and rejected
  with the timeout error. After an intermediate status (\<open>INITIATED\<close>) for the command has
  been dispatched, though, \<^verbatim>\<open>_handleCommandStatusUpdates\<close> has cleared the command's
  timeout before looking at the status: the entry is still in the tracker, no timeout is
  armed for it any more, and nothing has settled it. From there on, whatever timers fire
  and whatever else happens short of another inbound frame, the command stays in the
  tracker and is never settled.
\<close>

theorem intermediate_status_cancels_command_timeout:
  "timers abcPending 2 = Some (30000, CommandTimeoutCallback ''abc'')
   \<and> settlementsFor ''abc'' (fire 2 abcPending)
       = [Rejected ''abc'' ''Command timeout - no response from vehicle'']
   \<and> pendingCommands (fire 2 abcPending) ''abc'' = None
   \<and> mapState 1 = ''INITIATED''
   \<and> pendingCommands abcInitiated ''abc'' = Some \<lparr> timeout = 2 \<rparr>
   \<and> timers abcInitiated 2 = None
   \<and> fire 2 abcInitiated = abcInitiated
   \<and> settlements abcInitiated = []
   \<and> ((\<forall>e \<in> set evs. silent ''abc'' e) \<longrightarrow>
        pendingCommands (run P evs abcInitiated) ''abc'' \<noteq> None
        \<and> settlementsFor ''abc'' (run P evs abcInitiated) = []
        \<and> armedFor ''abc'' (run P evs abcInitiated) = {})"
proof -
  have evaluated: "timers abcPending 2 = Some (30000, CommandTimeoutCallback ''abc'')
   \<and> settlementsFor ''abc'' (fire 2 abcPending)
       = [Rejected ''abc'' ''Command timeout - no response from vehicle'']
   \<and> pendingCommands (fire 2 abcPending) ''abc'' = None
   \<and> mapState 1 = ''INITIATED''
   \<and> pendingCommands abcInitiated ''abc'' = Some \<lparr> timeout = 2 \<rparr>
   \<and> timers abcInitiated 2 = None
   \<and> fire 2 abcInitiated = abcInitiated
   \<and> settlements abcInitiated = []"
    by (simp add: ws_defs fixture_defs abcInitiated_def Let_def)
  have forever: "(\<forall>e \<in> set evs. silent ''abc'' e) \<longrightarrow>
        pendingCommands (run P evs abcInitiated) ''abc'' \<noteq> None
        \<and> settlementsFor ''abc'' (run P evs abcInitiated) = []
        \<and> armedFor ''abc'' (run P evs abcInitiated) = {}"
  proof
    assume "\<forall>e \<in> set evs. silent ''abc'' e"
    then have "leaked ''abc'' (run P evs abcInitiated)"
      using leaked_abcInitiated by (rule leaked_run)
    then show "pendingCommands (run P evs abcInitiated) ''abc'' \<noteq> None
        \<and> settlementsFor ''abc'' (run P evs abcInitiated) = []
        \<and> armedFor ''abc'' (run P evs abcInitiated) = {}"
      by (simp add: leaked_def)
  qed
  from evaluated forever show ?thesis by blast
qed

theorem intermediate_status_cancels_command_timeout_witness:
  "silent ''abc'' (TimerFires 2) \<and> silent ''abc'' (TimerFires 3) \<and> silent ''abc'' (SocketPong 0)
   \<and> pendingCommands (run nullParser [TimerFires 2, SocketPong 0, TimerFires 3] abcInitiated) ''abc''
       = Some \<lparr> timeout = 2 \<rparr>
   \<and> settlementsFor ''abc'' (run nullParser [TimerFires 2, SocketPong 0, TimerFires 3] abcInitiated)
       = []
   \<and> armedFor ''abc'' (run nullParser [TimerFires 2, SocketPong 0, TimerFires 3] abcInitiated) = {}"
  using intermediate_status_cancels_command_timeout
    [of "[TimerFires 2, SocketPong 0, TimerFires 3]" nullParser]
  by (simp add: ws_defs fixture_defs abcInitiated_def Let_def)

end
